theory Spec2Isabelle
  imports Complex_Main "HOL-Library.Word"
begin

section \<open>Data model\<close>

text \<open>
  The engine works on JavaScript numbers and on byte buffers (\<open>Buffer\<close>, \<open>Uint8Array\<close>).
  Pixel coordinates and extents of a validated region are integers; statistics and
  radii are modelled as real numbers (the idealisation of a finite double); a byte is
  an \<open>8 word\<close>. Storing a number into a \<open>Uint8Array\<close> keeps its integer part modulo
  256. Where a result depends on the rounding of double arithmetic (the noise blend),
  every operation is rounded to binary64.
\<close>

type_synonym byte = "8 word"

record Region =
  reg_x :: int
  reg_y :: int
  reg_width :: int
  reg_height :: int

record Size =
  size_width :: int
  size_height :: int

record WatermarkArea =
  area_x :: real
  area_y :: real
  area_width :: real
  area_height :: real

datatype InpaintingMethod = Basic | TextureSynthesis | PatchBased | Hybrid

datatype InterpolationMethod = Bicubic | Lanczos | EdgeDirected | Anisotropic

datatype error =
    DimensionsUnavailable
  | InvalidRegionBounds
  | BadExtractArea
  | NoSourceRegions
  | BufferLengthMismatch
  | InvalidArrayLength
  | InpaintingFailed error

definition toUint8 :: "int \<Rightarrow> byte" where
  "toUint8 v = word_of_int v"

definition byteVal :: "byte \<Rightarrow> real" where
  "byteVal b = real (unat b)"

section \<open>Method selection (InpaintingEngine.determineInpaintingMethod)\<close>

definition determineInpaintingMethod :: "real \<Rightarrow> real \<Rightarrow> real \<Rightarrow> real \<Rightarrow> InpaintingMethod" where
  "determineInpaintingMethod textureComplexity edgeStrength colorVariation patternRepetition =
     (if textureComplexity > 0.7 \<and> patternRepetition > 0.6 then TextureSynthesis
      else if edgeStrength > 0.6 then PatchBased
      else if textureComplexity > 0.5 \<or> colorVariation > 0.6 then Hybrid
      else Basic)"

section \<open>Geometry utilities (clampRegionToImage)\<close>

definition clampRegionToImage :: "Region \<Rightarrow> Size \<Rightarrow> Region" where
  "clampRegionToImage region imageSize =
     (let clampedX = max 0 (min (reg_x region) (size_width imageSize - 1));
          clampedY = max 0 (min (reg_y region) (size_height imageSize - 1));
          maxWidth = size_width imageSize - clampedX;
          maxHeight = size_height imageSize - clampedY
      in \<lparr> reg_x = clampedX, reg_y = clampedY,
           reg_width = min (reg_width region) maxWidth,
           reg_height = min (reg_height region) maxHeight \<rparr>)"

text \<open>
  The order the specification describes, written out for comparison: the extents are
  shrunk against the image bounds as seen from the unclamped origin, and the origin is
  clamped afterwards.
\<close>

definition clampToImage_shrink_first :: "Region \<Rightarrow> Size \<Rightarrow> Region" where
  "clampToImage_shrink_first region imageSize =
     (let w = min (reg_width region) (size_width imageSize - reg_x region);
          h = min (reg_height region) (size_height imageSize - reg_y region)
      in \<lparr> reg_x = max 0 (min (reg_x region) (size_width imageSize - 1)),
           reg_y = max 0 (min (reg_y region) (size_height imageSize - 1)),
           reg_width = w, reg_height = h \<rparr>)"

definition isRegionValid :: "Region \<Rightarrow> Size \<Rightarrow> bool" where
  "isRegionValid region imageSize \<longleftrightarrow>
     reg_x region \<ge> 0 \<and> reg_y region \<ge> 0 \<and>
     reg_x region + reg_width region \<le> size_width imageSize \<and>
     reg_y region + reg_height region \<le> size_height imageSize \<and>
     reg_width region > 0 \<and> reg_height region > 0"

section \<open>Noise blending (NoiseMatchingEngine.blendNoiseWithContent)\<close>

text \<open>
  The blend is computed in double precision. \<open>binary64 x\<close> is the double nearest to the
  real number \<open>x\<close>, ties going to the even significand: 53 significant bits for
  \<open>\<bar>x\<bar> \<ge> 2 ^ -1022\<close>, the fixed spacing \<open>2 ^ -1074\<close> below. Overflow to infinity
  cannot occur for the values of the blend and is not modelled; the blend strength is
  a finite number.
\<close>

definition roundTiesToEven :: "real \<Rightarrow> int" where
  "roundTiesToEven y =
     (let f = \<lfloor>y\<rfloor>; d = y - of_int f
      in if d < 1 / 2 then f
         else if d > 1 / 2 then f + 1
         else if even f then f else f + 1)"

definition binary64 :: "real \<Rightarrow> real" where
  "binary64 x =
     (if x = 0 then 0
      else
        let e = max (- 1022) \<lfloor>log 2 \<bar>x\<bar>\<rfloor>;
            ulp = 2 powi (e - 52)
        in sgn x * of_int (roundTiesToEven (\<bar>x\<bar> / ulp)) * ulp)"

text \<open>
  The expression \<open>contentValue * (1 - alpha) + noiseValue * alpha\<close> as the source
  evaluates it: the difference, the two products and the sum are each rounded.
\<close>

definition blendValue :: "real \<Rightarrow> real \<Rightarrow> real \<Rightarrow> real" where
  "blendValue contentValue noiseValue alpha =
     binary64 (binary64 (contentValue * binary64 (1 - alpha)) + binary64 (noiseValue * alpha))"

definition blendNoiseWithContent :: "byte list \<Rightarrow> byte list \<Rightarrow> real \<Rightarrow> error + byte list" where
  "blendNoiseWithContent content noise blendStrength =
     (if length content \<noteq> length noise then Inl BufferLengthMismatch
      else
        let alpha = max 0 (min 1 blendStrength)
        in Inr (map (\<lambda>i. let contentValue = byteVal (content ! i);
                            noiseValue = byteVal (noise ! i)
                        in toUint8 \<lfloor>blendValue contentValue noiseValue alpha\<rfloor>)
                    [0..<length content]))"

section \<open>The orchestrator's bounds handling (InpaintingEngine.processWatermarkRemoval)\<close>

record Metadata =
  meta_width :: "int option"
  meta_height :: "int option"

datatype QualityLevel = Fast | Balanced | High

record InpaintingOptions =
  opt_featherRadius :: real
  opt_samplingRadius :: real
  opt_textureAnalysisDepth :: real
  opt_noiseMatching :: bool
  opt_edgePreservation :: bool
  opt_qualityLevel :: QualityLevel

record ContextAnalysis =
  ctx_textureComplexity :: real
  ctx_edgeStrength :: real
  ctx_colorVariation :: real
  ctx_patternRepetition :: real
  ctx_recommendedMethod :: InpaintingMethod

text \<open>
  The image library's \<open>extract\<close> (libvips \<open>extract_area\<close>): it yields the window's
  dimensions when the window lies inside the image and fails with "bad extract area"
  otherwise (the failure the repository's test report records, and the
  specification's ExtractOutOfBounds).
\<close>

definition extract_area :: "Size \<Rightarrow> Region \<Rightarrow> error + Size" where
  "extract_area imageSize area =
     (if 0 \<le> reg_x area \<and> 0 \<le> reg_y area \<and> 0 < reg_width area \<and> 0 < reg_height area
         \<and> reg_x area + reg_width area \<le> size_width imageSize
         \<and> reg_y area + reg_height area \<le> size_height imageSize
      then Inr \<lparr> size_width = reg_width area, size_height = reg_height area \<rparr>
      else Inl BadExtractArea)"

text \<open>The three expanded analysis windows, as each call site computes them.\<close>

definition analyzeContext_expandedRegion :: "Region \<Rightarrow> Region" where
  "analyzeContext_expandedRegion region =
     \<lparr> reg_x = max 0 (reg_x region - 30), reg_y = max 0 (reg_y region - 30),
       reg_width = reg_width region + 60, reg_height = reg_height region + 60 \<rparr>"

definition analyzeLocalNoise_expandedRegion :: "Size \<Rightarrow> Region \<Rightarrow> Region" where
  "analyzeLocalNoise_expandedRegion imageSize region =
     \<lparr> reg_x = max 0 (reg_x region - 20), reg_y = max 0 (reg_y region - 20),
       reg_width = min (reg_width region + 40) (size_width imageSize - reg_x region + 20),
       reg_height = min (reg_height region + 40) (size_height imageSize - reg_y region + 20) \<rparr>"

definition detectEdges_expandedRegion :: "Region \<Rightarrow> Region" where
  "detectEdges_expandedRegion region =
     \<lparr> reg_x = max 0 (reg_x region - 50), reg_y = max 0 (reg_y region - 50),
       reg_width = reg_width region + 100, reg_height = reg_height region + 100 \<rparr>"

text \<open>
  analyzeContext extracts its window and derives the four statistics from the
  extracted pixels. The pixel statistics are the parameter \<open>stats\<close> (a function of the
  window); the window arithmetic, the extraction and the method selection are the
  code's.
\<close>

definition analyzeContext ::
  "(Region \<Rightarrow> real \<times> real \<times> real \<times> real) \<Rightarrow> Size \<Rightarrow> Region \<Rightarrow> error + ContextAnalysis" where
  "analyzeContext stats imageSize region =
     (let expandedRegion = analyzeContext_expandedRegion region
      in case extract_area imageSize expandedRegion of
           Inl e \<Rightarrow> Inl e
         | Inr info \<Rightarrow>
             (case stats expandedRegion of (tc, es, cv, pr) \<Rightarrow>
                Inr \<lparr> ctx_textureComplexity = tc, ctx_edgeStrength = es, ctx_colorVariation = cv,
                      ctx_patternRepetition = pr,
                      ctx_recommendedMethod = determineInpaintingMethod tc es cv pr \<rparr>))"

definition adaptOptionsToContext :: "InpaintingOptions \<Rightarrow> ContextAnalysis \<Rightarrow> InpaintingOptions" where
  "adaptOptionsToContext options context =
     (let a1 = (if ctx_textureComplexity context > 0.7
                then options \<lparr> opt_textureAnalysisDepth := max (opt_textureAnalysisDepth options) 4,
                               opt_samplingRadius := max (opt_samplingRadius options) 60 \<rparr>
                else options);
          a2 = (if ctx_edgeStrength context > 0.6
                then a1 \<lparr> opt_edgePreservation := True,
                          opt_featherRadius := min (opt_featherRadius a1) 15 \<rparr>
                else a1)
      in if ctx_colorVariation context > 0.8 then a2 \<lparr> opt_noiseMatching := True \<rparr> else a2)"

text \<open>
  The region block at the head of processWatermarkRemoval: the origin is floored and
  raised to 0, the extents are floored, cut to what is left of the image and raised
  to 1, and only then tested.
\<close>

definition processWatermarkRemoval_region :: "int \<Rightarrow> int \<Rightarrow> WatermarkArea \<Rightarrow> error + Region" where
  "processWatermarkRemoval_region metaWidth metaHeight watermarkArea =
     (let x = max 0 \<lfloor>area_x watermarkArea\<rfloor>;
          y = max 0 \<lfloor>area_y watermarkArea\<rfloor>;
          maxWidth = metaWidth - x;
          maxHeight = metaHeight - y;
          width = max 1 (min maxWidth \<lfloor>area_width watermarkArea\<rfloor>);
          height = max 1 (min maxHeight \<lfloor>area_height watermarkArea\<rfloor>)
      in if width \<le> 0 \<or> height \<le> 0 \<or> x \<ge> metaWidth \<or> y \<ge> metaHeight
         then Inl InvalidRegionBounds
         else Inr \<lparr> reg_x = x, reg_y = y, reg_width = width, reg_height = height \<rparr>)"

definition dimension_missing :: "int option \<Rightarrow> bool" where
  "dimension_missing d \<longleftrightarrow> (case d of None \<Rightarrow> True | Some v \<Rightarrow> v = 0)"

text \<open>
  processWatermarkRemoval up to the method dispatch. Everything after the context
  analysis (the method-specific synthesis, compositing and quality evaluation) is the
  parameter \<open>inpaint\<close>; every error raised inside the try block is rethrown wrapped.
\<close>

definition processWatermarkRemoval ::
  "(Region \<Rightarrow> real \<times> real \<times> real \<times> real)
   \<Rightarrow> (InpaintingMethod \<Rightarrow> Region \<Rightarrow> InpaintingOptions \<Rightarrow> error + 'a)
   \<Rightarrow> Metadata \<Rightarrow> WatermarkArea \<Rightarrow> InpaintingOptions \<Rightarrow> error + 'a" where
  "processWatermarkRemoval stats inpaint metadata watermarkArea options =
     (case
        (if dimension_missing (meta_width metadata) \<or> dimension_missing (meta_height metadata)
         then Inl DimensionsUnavailable
         else
           let w = the (meta_width metadata); h = the (meta_height metadata)
           in case processWatermarkRemoval_region w h watermarkArea of
                Inl e \<Rightarrow> Inl e
              | Inr region \<Rightarrow>
                  (case analyzeContext stats \<lparr> size_width = w, size_height = h \<rparr> region of
                     Inl e \<Rightarrow> Inl e
                   | Inr context \<Rightarrow>
                       inpaint (ctx_recommendedMethod context) region
                         (adaptOptionsToContext options context)))
      of Inl e \<Rightarrow> Inl (InpaintingFailed e)
       | Inr result \<Rightarrow> Inr result)"

section \<open>Texture synthesis (TextureAnalyzer.generateTextureSynthesis)\<close>







section \<open>Feather mask (EdgeFeatherer.createFeatherMask)\<close>

text \<open>
  The mask has one byte per image pixel, row by row. \<open>featherMaskPixel\<close> is the body
  of the double loop of createFeatherMask at pixel \<open>(x, y)\<close>. The image size comes from
  the decoded image and is positive. The option presets give a feather radius of 15,
  20 or 25 and the adaptive radius lies in [10, 35]; a radius of 0, where the source
  divides by zero, is outside the model.
\<close>

text \<open>EdgeFeatherer.isInsideRegion.\<close>

definition isInsideRegion :: "int \<Rightarrow> int \<Rightarrow> Region \<Rightarrow> bool" where
  "isInsideRegion x y region \<longleftrightarrow>
     x \<ge> reg_x region \<and> x < reg_x region + reg_width region \<and>
     y \<ge> reg_y region \<and> y < reg_y region + reg_height region"

definition distanceToRegionEdge :: "int \<Rightarrow> int \<Rightarrow> Region \<Rightarrow> int" where
  "distanceToRegionEdge x y region =
     (let distToLeft = x - reg_x region;
          distToRight = (reg_x region + reg_width region) - x;
          distToTop = y - reg_y region;
          distToBottom = (reg_y region + reg_height region) - y
      in min (min (min distToLeft distToRight) distToTop) distToBottom)"

definition distanceToRegion :: "int \<Rightarrow> int \<Rightarrow> Region \<Rightarrow> real" where
  "distanceToRegion x y region =
     (let dx = max 0 (max (reg_x region - x) (x - (reg_x region + reg_width region)));
          dy = max 0 (max (reg_y region - y) (y - (reg_y region + reg_height region)))
      in sqrt (real_of_int (dx * dx + dy * dy)))"

definition generateGaussianFalloff :: "real \<Rightarrow> real \<Rightarrow> real" where
  "generateGaussianFalloff distance sigma =
     (let normalizedDistance = distance / sigma
      in exp (- (normalizedDistance * normalizedDistance) / 2))"

definition featherMaskPixel :: "Region \<Rightarrow> real \<Rightarrow> int \<Rightarrow> int \<Rightarrow> byte" where
  "featherMaskPixel region featherRadius x y =
     (if isInsideRegion x y region then
        let distanceToEdge = distanceToRegionEdge x y region;
            falloff = generateGaussianFalloff (real_of_int distanceToEdge) featherRadius
        in toUint8 \<lfloor>falloff * 255\<rfloor>
      else
        let distanceToRegion = distanceToRegion x y region
        in if distanceToRegion \<le> featherRadius then
             let falloff = generateGaussianFalloff (featherRadius - distanceToRegion) featherRadius
             in toUint8 \<lfloor>(1 - falloff) * 255\<rfloor>
           else 0)"

definition createFeatherMask :: "Region \<Rightarrow> Size \<Rightarrow> real \<Rightarrow> byte list" where
  "createFeatherMask region imageSize featherRadius =
     (let maskWidth = size_width imageSize; maskHeight = size_height imageSize
      in map (\<lambda>idx. featherMaskPixel region featherRadius
                       (int idx mod maskWidth) (int idx div maskWidth))
             [0..<nat (maskWidth * maskHeight)])"

section \<open>Quality evaluation (InpaintingEngine.evaluateQuality)\<close>

text \<open>
  A read of a buffer outside its bounds gives \<open>undefined\<close> in the source, and every
  sum it enters becomes \<open>NaN\<close>: such a read is \<open>None\<close> here, and a metric that is
  \<open>NaN\<close> is \<open>None\<close>. \<open>Math.round\<close> rounds half up. A comparison with \<open>NaN\<close> is
  false, so an undefined byte never counts as an artifact.
\<close>

record QualityMetrics =
  qm_psnr :: real
  qm_ssim :: "real option"
  qm_visualQuality :: "real option"
  qm_artifactLevel :: real

definition jsRound :: "real \<Rightarrow> int" where
  "jsRound v = \<lfloor>v + 1 / 2\<rfloor>"

definition readByte :: "byte list \<Rightarrow> int \<Rightarrow> real option" where
  "readByte buffer idx =
     (if 0 \<le> idx \<and> idx < int (length buffer) then Some (byteVal (buffer ! nat idx)) else None)"

text \<open>
  For two empty buffers the source's mean squared error is \<open>0 / 0 = NaN\<close>, the test
  \<open>mse > 0\<close> is false and the result is 100; the quotient below is 0 there, with the
  same result.
\<close>

definition computePSNR :: "byte list \<Rightarrow> byte list \<Rightarrow> real" where
  "computePSNR original processed =
     (let len = min (length original) (length processed);
          mse = (\<Sum>i\<leftarrow>[0..<len]. (byteVal (original ! i) - byteVal (processed ! i))
                                  * (byteVal (original ! i) - byteVal (processed ! i)))
                / real len
      in if mse > 0 then 10 * log 10 (255 * 255 / mse) else 100)"

definition extractWindow :: "byte list \<Rightarrow> int \<Rightarrow> int \<Rightarrow> int \<Rightarrow> nat \<Rightarrow> real option list" where
  "extractWindow buffer width x y windowSize =
     concat (map (\<lambda>wy. map (\<lambda>wx. readByte buffer ((y + int wy) * width + (x + int wx)))
                           [0..<windowSize])
                 [0..<windowSize])"

text \<open>The arithmetic of computeWindowSSIM on two windows of defined values.\<close>

definition windowSSIM :: "real list \<Rightarrow> real list \<Rightarrow> real \<Rightarrow> real \<Rightarrow> real \<Rightarrow> real" where
  "windowSSIM window1 window2 k1 k2 L =
     (let n = real (length window1);
          sum1 = sum_list window1;
          sum2 = sum_list window2;
          sum1Sq = (\<Sum>v\<leftarrow>window1. v * v);
          sum2Sq = (\<Sum>v\<leftarrow>window2. v * v);
          sumProduct = (\<Sum>(u, v)\<leftarrow>zip window1 window2. u * v);
          mu1 = sum1 / n;
          mu2 = sum2 / n;
          sigma1Sq = (sum1Sq / n) - (mu1 * mu1);
          sigma2Sq = (sum2Sq / n) - (mu2 * mu2);
          sigma12 = (sumProduct / n) - (mu1 * mu2);
          c1 = (k1 * L) * (k1 * L);
          c2 = (k2 * L) * (k2 * L);
          numerator = (2 * mu1 * mu2 + c1) * (2 * sigma12 + c2);
          denominator = (mu1 * mu1 + mu2 * mu2 + c1) * (sigma1Sq + sigma2Sq + c2)
      in numerator / denominator)"

definition computeWindowSSIM ::
  "real option list \<Rightarrow> real option list \<Rightarrow> real \<Rightarrow> real \<Rightarrow> real \<Rightarrow> real option" where
  "computeWindowSSIM window1 window2 k1 k2 L =
     (let n = length window1;
          second = map (\<lambda>i. if i < length window2 then window2 ! i else None) [0..<n]
      in case (those window1, those second) of
           (Some a, Some b) \<Rightarrow> Some (windowSSIM a b k1 k2 L)
         | _ \<Rightarrow> None)"

text \<open>
  The two loops of computeSSIM visit the window origins \<open>0, 11, 22, ...\<close> up to
  \<open>height - 11\<close> and \<open>width - 11\<close>: \<open>height div 11\<close> rows of \<open>width div 11\<close> windows.
\<close>

definition computeSSIM :: "byte list \<Rightarrow> byte list \<Rightarrow> int \<Rightarrow> int \<Rightarrow> real option" where
  "computeSSIM original processed width height =
     (let windowSize = 11; k1 = 0.01; k2 = 0.03; L = 255;
          values = concat (map (\<lambda>j. map (\<lambda>i.
                      computeWindowSSIM
                        (extractWindow original width (int i * int windowSize) (int j * int windowSize) windowSize)
                        (extractWindow processed width (int i * int windowSize) (int j * int windowSize) windowSize)
                        k1 k2 L)
                      [0..<nat (width div int windowSize)])
                    [0..<nat (height div int windowSize)])
      in if values = [] then Some 1
         else case those values of
                None \<Rightarrow> None
              | Some vs \<Rightarrow> Some (sum_list vs / real (length vs)))"

definition differsOver50 :: "real option \<Rightarrow> real option \<Rightarrow> bool" where
  "differsOver50 a b = (case (a, b) of (Some u, Some v) \<Rightarrow> \<bar>u - v\<bar> > 50 | _ \<Rightarrow> False)"

definition detectArtifacts :: "byte list \<Rightarrow> Region \<Rightarrow> int \<Rightarrow> int \<Rightarrow> real" where
  "detectArtifacts processed region width height =
     (let channels = 3;
          artifactScore =
            (\<Sum>y\<leftarrow>[reg_y region..reg_y region + reg_height region - 2].
              \<Sum>x\<leftarrow>[reg_x region..reg_x region + reg_width region - 2].
                \<Sum>c\<leftarrow>[0..channels - 1].
                  (let idx = (y * width + x) * channels;
                       rightIdx = (y * width + x + 1) * channels;
                       downIdx = ((y + 1) * width + x) * channels
                   in if differsOver50 (readByte processed (idx + c)) (readByte processed (rightIdx + c))
                         \<or> differsOver50 (readByte processed (idx + c)) (readByte processed (downIdx + c))
                      then 1 else 0 :: nat));
          totalPixels = reg_width region * reg_height region
      in real artifactScore / real_of_int (totalPixels * channels))"

definition evaluateQuality :: "byte list \<Rightarrow> byte list \<Rightarrow> Region \<Rightarrow> int \<Rightarrow> int \<Rightarrow> QualityMetrics" where
  "evaluateQuality original processed region width height =
     (let psnr = computePSNR original processed;
          ssim = computeSSIM original processed width height;
          visualQuality = map_option (\<lambda>s. (psnr / 50 + s) / 2) ssim;
          artifactLevel = detectArtifacts processed region width height
      in \<lparr> qm_psnr = real_of_int (jsRound (psnr * 100)) / 100,
           qm_ssim = map_option (\<lambda>s. real_of_int (jsRound (s * 1000)) / 1000) ssim,
           qm_visualQuality = map_option (\<lambda>v. real_of_int (jsRound (v * 1000)) / 1000) visualQuality,
           qm_artifactLevel = real_of_int (jsRound (artifactLevel * 1000)) / 1000 \<rparr>)"

section \<open>Interpolation (AdvancedInterpolator)\<close>

text \<open>
  The interpolator works on JavaScript numbers: a source buffer's width is the square
  root of a third of its length and need not be an integer, so indices are computed
  as reals. A value that is \<open>undefined\<close> or \<open>NaN\<close> in the source is \<open>None\<close>. The
  rounding of \<open>Float32Array\<close> elements to single precision is not modelled.
\<close>


text \<open>
  A read \<open>data[idx]\<close> at a computed index: defined only at an integer index inside
  the buffer.
\<close>

definition readIndex :: "byte list \<Rightarrow> real \<Rightarrow> real option" where
  "readIndex data idx =
     (if idx = of_int \<lfloor>idx\<rfloor> then readByte data \<lfloor>idx\<rfloor> else None)"

text \<open>\<open>Math.floor (Math.max 0 (Math.min 255 v))\<close> stored into a byte array; \<open>NaN\<close> is stored as 0.\<close>

definition clampByte :: "real option \<Rightarrow> byte" where
  "clampByte v = (case v of None \<Rightarrow> 0 | Some r \<Rightarrow> toUint8 \<lfloor>max 0 (min 255 r)\<rfloor>)"

definition cubic1D :: "real \<Rightarrow> real \<Rightarrow> real \<Rightarrow> real \<Rightarrow> real \<Rightarrow> real" where
  "cubic1D v0 v1 v2 v3 t =
     (let a = - 0.5 * v0 + 1.5 * v1 - 1.5 * v2 + 0.5 * v3;
          b = v0 - 2.5 * v1 + 2 * v2 - 0.5 * v3;
          c = - 0.5 * v0 + 0.5 * v2;
          d = v1
      in a * t * t * t + b * t * t + c * t + d)"

definition cubic1D_opt :: "real option list \<Rightarrow> real \<Rightarrow> real option" where
  "cubic1D_opt vs t =
     (case vs of
        [Some v0, Some v1, Some v2, Some v3] \<Rightarrow> Some (cubic1D v0 v1 v2 v3 t)
      | _ \<Rightarrow> None)"

definition cubicInterpolate ::
  "byte list \<Rightarrow> real \<Rightarrow> real \<Rightarrow> real \<Rightarrow> real \<Rightarrow> int \<Rightarrow> int \<Rightarrow> real option" where
  "cubicInterpolate data x y width height channel channels =
     (let x0 = \<lfloor>x\<rfloor>; y0 = \<lfloor>y\<rfloor>;
          dx = x - of_int x0; dy = y - of_int y0;
          sample = (\<lambda>j i.
             let sampleX = max 0 (min (width - 1) (of_int (x0 - 1 + i)));
                 sampleY = max 0 (min (height - 1) (of_int (y0 - 1 + j)));
                 idx = (sampleY * width + sampleX) * of_int channels + of_int channel
             in readIndex data idx);
          interpolatedRows = map (\<lambda>j. cubic1D_opt (map (sample j) [0, 1, 2, 3]) dx) [0, 1, 2, 3]
      in cubic1D_opt interpolatedRows dy)"

text \<open>
  The result buffer of an interpolation: \<open>new Uint8Array (width * height * 3)\<close>, which
  fails for a negative length, filled by the loops over \<open>y\<close>, \<open>x\<close> and the channel;
  \<open>pixel x y c\<close> is what the loop body stores at \<open>(y * width + x) * 3 + c\<close>.
\<close>

definition fillTarget :: "int \<Rightarrow> int \<Rightarrow> (int \<Rightarrow> int \<Rightarrow> int \<Rightarrow> byte) \<Rightarrow> byte list" where
  "fillTarget width height pixel =
     map (\<lambda>i. if 0 < width \<and> 0 < height
               then pixel ((int i div 3) mod width) ((int i div 3) div width) (int i mod 3)
               else 0)
         [0..<nat (width * height * 3)]"

definition bicubicInterpolation :: "byte list list \<Rightarrow> Region \<Rightarrow> error + byte list" where
  "bicubicInterpolation sourceRegions targetRegion =
     (let width = reg_width targetRegion; height = reg_height targetRegion; channels = 3
      in if width * height * channels < 0 then Inl InvalidArrayLength
         else if length sourceRegions = 0
         then Inr (replicate (nat (width * height * channels)) 128)
         else
           let sourceData = hd sourceRegions;
               sourceWidth = sqrt (real (length sourceData) / of_int channels);
               sourceHeight = sourceWidth
           in Inr (fillTarget width height (\<lambda>x y c.
                 let srcX = (of_int x / of_int width) * sourceWidth;
                     srcY = (of_int y / of_int height) * sourceHeight
                 in clampByte (cubicInterpolate sourceData srcX srcY sourceWidth sourceHeight c channels))))"

definition lanczosKernel :: "real \<Rightarrow> real" where
  "lanczosKernel x =
     (let a = 3
      in if x = 0 then 1
         else if \<bar>x\<bar> \<ge> a then 0
         else (let piX = pi * x in (a * sin piX * sin (piX / a)) / (piX * piX)))"

definition lanczosInterpolation :: "byte list list \<Rightarrow> Region \<Rightarrow> error + byte list" where
  "lanczosInterpolation sourceRegions targetRegion =
     (let width = reg_width targetRegion; height = reg_height targetRegion; channels = 3;
          lanczosRadius = 3
      in if width * height * channels < 0 then Inl InvalidArrayLength
         else if length sourceRegions = 0
         then Inr (replicate (nat (width * height * channels)) 128)
         else
           let sourceData = hd sourceRegions;
               sourceWidth = sqrt (real (length sourceData) / of_int channels);
               sourceHeight = sourceWidth
           in Inr (fillTarget width height (\<lambda>x y c.
                 let srcX = (of_int x / of_int width) * sourceWidth;
                     srcY = (of_int y / of_int height) * sourceHeight;
                     taps = [(\<lfloor>srcX\<rfloor> + kx, \<lfloor>srcY\<rfloor> + ky).
                               ky \<leftarrow> [- lanczosRadius..lanczosRadius],
                               kx \<leftarrow> [- lanczosRadius..lanczosRadius]];
                     inside = filter (\<lambda>(sampleX, sampleY).
                                 sampleX \<ge> 0 \<and> of_int sampleX < sourceWidth
                               \<and> sampleY \<ge> 0 \<and> of_int sampleY < sourceHeight) taps;
                     weight = (\<lambda>(sampleX, sampleY).
                                 lanczosKernel (srcX - of_int sampleX) * lanczosKernel (srcY - of_int sampleY));
                     value = (\<lambda>(sampleX, sampleY).
                                 readIndex sourceData
                                   ((of_int sampleY * sourceWidth + of_int sampleX) * of_int channels + of_int c));
                     weightSum = (\<Sum>t\<leftarrow>inside. weight t);
                     sum = map_option (\<lambda>vs. \<Sum>(v, t)\<leftarrow>zip vs inside. v * weight t)
                             (those (map value inside))
                 in if weightSum > 0 then clampByte (map_option (\<lambda>s. s / weightSum) sum) else 128)))"


text \<open>\<open>Math.atan2 y x\<close> on real numbers.\<close>

definition atan2 :: "real \<Rightarrow> real \<Rightarrow> real" where
  "atan2 y x =
     (if x > 0 then arctan (y / x)
      else if x < 0 then (if y \<ge> 0 then arctan (y / x) + pi else arctan (y / x) - pi)
      else if y > 0 then pi / 2
      else if y < 0 then - pi / 2
      else 0)"

text \<open>
  A float array with a computed index: a store at an index that is not an integer
  inside the array is ignored, a load there is \<open>undefined\<close>. An element that holds
  \<open>NaN\<close> is \<open>None\<close>.
\<close>

definition storeIndex :: "real option list \<Rightarrow> real \<Rightarrow> real option \<Rightarrow> real option list" where
  "storeIndex arr idx v =
     (if idx = of_int \<lfloor>idx\<rfloor> \<and> 0 \<le> idx \<and> idx < real (length arr)
      then arr[nat \<lfloor>idx\<rfloor> := v] else arr)"

definition loadIndex :: "real option list \<Rightarrow> real \<Rightarrow> real option" where
  "loadIndex arr idx =
     (if idx = of_int \<lfloor>idx\<rfloor> \<and> 0 \<le> idx \<and> idx < real (length arr)
      then arr ! nat \<lfloor>idx\<rfloor> else None)"

definition minus_opt :: "real option \<Rightarrow> real option \<Rightarrow> real option" where
  "minus_opt a b = (case (a, b) of (Some u, Some v) \<Rightarrow> Some (u - v) | _ \<Rightarrow> None)"

text \<open>
  The \<open>direction\<close> array of computeEdgeMap (the only part of the edge map the
  interpolation reads), filled by the loops over the interior pixels.
\<close>

definition computeEdgeMap_direction :: "byte list \<Rightarrow> real \<Rightarrow> real \<Rightarrow> int \<Rightarrow> real option list" where
  "computeEdgeMap_direction data width height channels =
     fold (\<lambda>(y, x) direction.
             let idx = of_int y * width + of_int x;
                 gradient = (\<lambda>hi lo.
                    map_option (\<lambda>ds. sum_list ds / of_int channels)
                      (those (map (\<lambda>c. minus_opt (readIndex data (hi c)) (readIndex data (lo c)))
                                  [0..channels - 1])));
                 gx = gradient
                        (\<lambda>c. (of_int y * width + of_int (x + 1)) * of_int channels + of_int c)
                        (\<lambda>c. (of_int y * width + of_int (x - 1)) * of_int channels + of_int c);
                 gy = gradient
                        (\<lambda>c. (of_int (y + 1) * width + of_int x) * of_int channels + of_int c)
                        (\<lambda>c. (of_int (y - 1) * width + of_int x) * of_int channels + of_int c)
             in storeIndex direction idx
                  (case (gy, gx) of (Some a, Some b) \<Rightarrow> Some (atan2 a b) | _ \<Rightarrow> None))
          [(y, x). y \<leftarrow> [1..\<lceil>height - 1\<rceil> - 1], x \<leftarrow> [1..\<lceil>width - 1\<rceil> - 1]]
          (replicate (nat \<lfloor>width * height\<rfloor>) (Some 0))"

definition getEdgeDirection :: "real option list \<Rightarrow> real \<Rightarrow> real \<Rightarrow> real \<Rightarrow> real \<Rightarrow> real option" where
  "getEdgeDirection direction x y width height =
     (let ix = \<lfloor>max 0 (min (width - 1) x)\<rfloor>;
          iy = \<lfloor>max 0 (min (height - 1) y)\<rfloor>;
          idx = of_int iy * width + of_int ix
      in loadIndex direction idx)"

definition interpolateAlongEdge ::
  "byte list \<Rightarrow> real \<Rightarrow> real \<Rightarrow> real \<Rightarrow> real \<Rightarrow> int \<Rightarrow> int \<Rightarrow> real option \<Rightarrow> real option" where
  "interpolateAlongEdge data x y width height channel channels edgeDirection =
     (case edgeDirection of
        None \<Rightarrow> Some 128
      | Some theta \<Rightarrow>
          let stepSize = 0.5;
              dx = cos theta * stepSize;
              dy = sin theta * stepSize;
              samples = filter (\<lambda>(sampleX, sampleY).
                            sampleX \<ge> 0 \<and> sampleX < width \<and> sampleY \<ge> 0 \<and> sampleY < height)
                          (map (\<lambda>i. (x + of_int i * dx, y + of_int i * dy)) [- 2..2]);
              reads = map (\<lambda>(sampleX, sampleY).
                            readIndex data
                              ((of_int \<lfloor>sampleY\<rfloor> * width + of_int \<lfloor>sampleX\<rfloor>) * of_int channels
                                 + of_int channel))
                          samples
          in if samples = [] then Some 128
             else map_option (\<lambda>vs. sum_list vs / real (length vs)) (those reads))"

definition edgeDirectedInterpolation :: "byte list list \<Rightarrow> Region \<Rightarrow> error + byte list" where
  "edgeDirectedInterpolation sourceRegions targetRegion =
     (let width = reg_width targetRegion; height = reg_height targetRegion; channels = 3
      in if width * height * channels < 0 then Inl InvalidArrayLength
         else if length sourceRegions = 0
         then Inr (replicate (nat (width * height * channels)) 128)
         else
           let sourceData = hd sourceRegions;
               sourceWidth = sqrt (real (length sourceData) / of_int channels);
               sourceHeight = sourceWidth;
               direction = computeEdgeMap_direction sourceData sourceWidth sourceHeight channels
           in Inr (fillTarget width height (\<lambda>x y c.
                 let srcX = (of_int x / of_int width) * sourceWidth;
                     srcY = (of_int y / of_int height) * sourceHeight;
                     edgeDirection = getEdgeDirection direction srcX srcY sourceWidth sourceHeight
                 in clampByte (interpolateAlongEdge sourceData srcX srcY sourceWidth sourceHeight
                                 c channels edgeDirection))))"

text \<open>
  One pass of the diffusion. The loops write the interior pixels; an element left at
  (or computed as) exactly 0 takes the input's value; the result is clamped into
  bytes.
\<close>

definition applyAnisotropicDiffusion :: "byte list \<Rightarrow> int \<Rightarrow> int \<Rightarrow> real \<Rightarrow> real \<Rightarrow> byte list" where
  "applyAnisotropicDiffusion buffer width height kappa gamma =
     (let channels = 3
      in map (\<lambda>i.
           let p = int i div channels; c = int i mod channels;
               x = p mod width; y = p div width;
               written = (0 < width \<and> 1 \<le> y \<and> y < height - 1 \<and> 1 \<le> x \<and> x < width - 1);
               centerValue = byteVal (buffer ! i);
               neighbors = [ readByte buffer (((y - 1) * width + x) * channels + c),
                             readByte buffer (((y + 1) * width + x) * channels + c),
                             readByte buffer ((y * width + (x - 1)) * channels + c),
                             readByte buffer ((y * width + (x + 1)) * channels + c) ];
               diffused = map_option
                   (\<lambda>ns. centerValue + gamma *
                      (\<Sum>neighbor\<leftarrow>ns.
                         let gradient = neighbor - centerValue;
                             conductance = exp (- (gradient * gradient) / (kappa * kappa))
                         in conductance * gradient))
                   (those neighbors);
               result = (if written then diffused else Some 0)
           in clampByte (if result = Some 0 then Some centerValue else result))
         [0..<length buffer])"

definition anisotropicDiffusionInterpolation :: "byte list list \<Rightarrow> Region \<Rightarrow> error + byte list" where
  "anisotropicDiffusionInterpolation sourceRegions targetRegion =
     (case bicubicInterpolation sourceRegions targetRegion of
        Inl e \<Rightarrow> Inl e
      | Inr result \<Rightarrow>
          let iterations = 10; kappa = 30; gamma = 0.1
          in Inr (((\<lambda>r. applyAnisotropicDiffusion r (reg_width targetRegion)
                            (reg_height targetRegion) kappa gamma) ^^ iterations) result))"

definition interpolateWithEdgePreservation ::
  "byte list list \<Rightarrow> Region \<Rightarrow> InterpolationMethod \<Rightarrow> error + byte list" where
  "interpolateWithEdgePreservation sourceRegions targetRegion method =
     (if length sourceRegions = 0 then Inl NoSourceRegions
      else case method of
             Bicubic \<Rightarrow> bicubicInterpolation sourceRegions targetRegion
           | Lanczos \<Rightarrow> lanczosInterpolation sourceRegions targetRegion
           | EdgeDirected \<Rightarrow> edgeDirectedInterpolation sourceRegions targetRegion
           | Anisotropic \<Rightarrow> anisotropicDiffusionInterpolation sourceRegions targetRegion)"

section \<open>Compositing (InpaintingEngine.blendWithOriginal, patchBasedInpainting)\<close>

text \<open>
  An object of the image library is a lazy pipeline: an input buffer and the
  operations requested so far; nothing is decoded or rendered before \<open>toBuffer\<close>. Of
  a pipeline, its input and the overlays of its \<open>composite\<close> request are modelled.
  The library's rendering of a raw pixel buffer,
  \<open>sharp(content, {raw: {width, height, channels}}).toBuffer()\<close>, is the parameter
  \<open>rawToBuffer\<close>.
\<close>

datatype BlendMode = Over

record CompositeInput =
  ci_input :: "byte list"
  ci_left :: int
  ci_top :: int
  ci_blend :: BlendMode

record SharpImage =
  sharp_input :: "byte list"
  sharp_composite :: "CompositeInput list"

text \<open>
  blendWithOriginal renders the content as a raw image of the region's size and
  requests its composition onto the original at the region's origin. Its fourth
  parameter, the feather mask, is not read.
\<close>

definition blendWithOriginal ::
  "(byte list \<Rightarrow> int \<Rightarrow> int \<Rightarrow> int \<Rightarrow> error + byte list)
   \<Rightarrow> SharpImage \<Rightarrow> byte list \<Rightarrow> Region \<Rightarrow> byte list \<Rightarrow> error + SharpImage" where
  "blendWithOriginal rawToBuffer originalImage inpaintedContent region featherMask =
     (case rawToBuffer inpaintedContent (reg_width region) (reg_height region) 3 of
        Inl e \<Rightarrow> Inl e
      | Inr buffer \<Rightarrow>
          Inr (originalImage \<lparr> sharp_composite :=
                 [\<lparr> ci_input = buffer, ci_left = reg_x region, ci_top = reg_y region,
                    ci_blend = Over \<rparr>] \<rparr>))"

text \<open>
  patchBasedInpainting from the blended patch content on: the sampling, ranking and
  blending of patches (its first statements) are represented by their result
  \<open>blendedContent\<close>, the image size is what the metadata reports.
\<close>

definition patchBasedInpainting ::
  "(byte list \<Rightarrow> int \<Rightarrow> int \<Rightarrow> int \<Rightarrow> error + byte list)
   \<Rightarrow> byte list \<Rightarrow> SharpImage \<Rightarrow> Size \<Rightarrow> Region \<Rightarrow> InpaintingOptions \<Rightarrow> error + SharpImage" where
  "patchBasedInpainting rawToBuffer blendedContent img imageSize region options =
     (case interpolateWithEdgePreservation [blendedContent] region
             (if opt_edgePreservation options then EdgeDirected else Bicubic) of
        Inl e \<Rightarrow> Inl e
      | Inr interpolatedContent \<Rightarrow>
          let featherMask = createFeatherMask region imageSize (opt_featherRadius options)
          in blendWithOriginal rawToBuffer img interpolatedContent region featherMask)"

section \<open>Theorems\<close>

lemma byteVal_le_255: "byteVal b \<le> 255"
proof -
  have "unat b < 2 ^ LENGTH(8)" by (rule unsigned_less)
  then have "unat b \<le> 255" by simp
  then have "real (unat b) \<le> real 255" by (simp only: of_nat_le_iff)
  then show ?thesis by (simp add: byteVal_def)
qed

lemma byteVal_nonneg: "0 \<le> byteVal b"
  unfolding byteVal_def by (rule of_nat_0_le_iff)

lemma uint_toUint8: "0 \<le> k \<Longrightarrow> k < 256 \<Longrightarrow> uint (toUint8 k) = k"
  by (simp add: toUint8_def uint_word_of_int take_bit_eq_mod)

text \<open>
  C3. The recommended method is a function of the four context statistics alone,
  decided by the thresholds in order, first match winning: texture complexity above
  0.7 together with pattern repetition above 0.6 gives texture synthesis; otherwise
  edge strength above 0.6 gives patch-based; otherwise texture complexity above 0.5 or
  colour variation above 0.6 gives hybrid; otherwise basic. The four sample points of
  the specification evaluate as stated.
\<close>

theorem determineInpaintingMethod_thresholds:
  "(determineInpaintingMethod tc es cv pr = TextureSynthesis \<longleftrightarrow> tc > 0.7 \<and> pr > 0.6)
   \<and> (determineInpaintingMethod tc es cv pr = PatchBased \<longleftrightarrow>
        \<not> (tc > 0.7 \<and> pr > 0.6) \<and> es > 0.6)
   \<and> (determineInpaintingMethod tc es cv pr = Hybrid \<longleftrightarrow>
        \<not> (tc > 0.7 \<and> pr > 0.6) \<and> \<not> es > 0.6 \<and> (tc > 0.5 \<or> cv > 0.6))
   \<and> (determineInpaintingMethod tc es cv pr = Basic \<longleftrightarrow>
        \<not> (tc > 0.7 \<and> pr > 0.6) \<and> \<not> es > 0.6 \<and> \<not> (tc > 0.5 \<or> cv > 0.6))
   \<and> determineInpaintingMethod 0.8 0.2 0.1 0.7 = TextureSynthesis
   \<and> determineInpaintingMethod 0.2 0.7 0.1 0.1 = PatchBased
   \<and> determineInpaintingMethod 0.55 0.1 0.2 0.1 = Hybrid
   \<and> determineInpaintingMethod 0.1 0.1 0.1 0.1 = Basic"
  by (simp add: determineInpaintingMethod_def)

theorem determineInpaintingMethod_thresholds_witness:
  "determineInpaintingMethod 0.75 0.9 0.9 0.65 = TextureSynthesis
   \<and> determineInpaintingMethod 0.75 0.9 0.9 0.6 = PatchBased
   \<and> determineInpaintingMethod 0.7 0.6 0.61 0 = Hybrid
   \<and> determineInpaintingMethod 0.5 0.6 0.6 1 = Basic"
  using determineInpaintingMethod_thresholds [of "0.75" "0.9" "0.9" "0.65"]
    determineInpaintingMethod_thresholds [of "0.75" "0.9" "0.9" "0.6"]
    determineInpaintingMethod_thresholds [of "0.7" "0.6" "0.61" 0]
    determineInpaintingMethod_thresholds [of "0.5" "0.6" "0.6" 1]
  by simp

text \<open>
  C5, as stated, fails: a region of zero width is returned with zero width.
\<close>

theorem clampRegionToImage_zero_width_counterexample:
  "\<not> 0 < reg_width (clampRegionToImage
        \<lparr> reg_x = 0, reg_y = 0, reg_width = 0, reg_height = 5 \<rparr>
        \<lparr> size_width = 10, size_height = 10 \<rparr>)"
  by (simp add: clampRegionToImage_def)

text \<open>
  C5, amended. For an image of positive dimensions and a region of positive width and
  height (its origin may lie anywhere), clampRegionToImage returns a region with
  non-negative origin, positive extents and lying inside the image. The origin is
  clamped first, into \<open>[0, imageWidth - 1]\<close> and \<open>[0, imageHeight - 1]\<close>; the extents
  are then shrunk against what remains to the right of and below the clamped origin.
\<close>

theorem clampRegionToImage_valid:
  assumes "0 < size_width s" and "0 < size_height s"
    and "0 < reg_width r" and "0 < reg_height r"
  shows "isRegionValid (clampRegionToImage r s) s
    \<and> reg_x (clampRegionToImage r s) = max 0 (min (reg_x r) (size_width s - 1))
    \<and> reg_y (clampRegionToImage r s) = max 0 (min (reg_y r) (size_height s - 1))
    \<and> reg_width (clampRegionToImage r s)
        = min (reg_width r) (size_width s - reg_x (clampRegionToImage r s))
    \<and> reg_height (clampRegionToImage r s)
        = min (reg_height r) (size_height s - reg_y (clampRegionToImage r s))"
  using assms by (auto simp add: clampRegionToImage_def isRegionValid_def Let_def)

theorem clampRegionToImage_valid_witness:
  "clampRegionToImage \<lparr> reg_x = -5, reg_y = 15, reg_width = 20, reg_height = 5 \<rparr>
       \<lparr> size_width = 10, size_height = 10 \<rparr>
     = \<lparr> reg_x = 0, reg_y = 9, reg_width = 10, reg_height = 1 \<rparr>
   \<and> isRegionValid (clampRegionToImage
        \<lparr> reg_x = -5, reg_y = 15, reg_width = 20, reg_height = 5 \<rparr>
        \<lparr> size_width = 10, size_height = 10 \<rparr>) \<lparr> size_width = 10, size_height = 10 \<rparr>"
  using clampRegionToImage_valid [of "\<lparr> size_width = 10, size_height = 10 \<rparr>"
      "\<lparr> reg_x = -5, reg_y = 15, reg_width = 20, reg_height = 5 \<rparr>"]
  by (simp add: clampRegionToImage_def)

lemma clampToImage_shrink_first_differs:
  "clampToImage_shrink_first \<lparr> reg_x = -5, reg_y = 15, reg_width = 20, reg_height = 5 \<rparr>
       \<lparr> size_width = 10, size_height = 10 \<rparr>
     = \<lparr> reg_x = 0, reg_y = 9, reg_width = 15, reg_height = -5 \<rparr>"
  by (simp add: clampToImage_shrink_first_def)

subsection \<open>Noise blending in double precision\<close>

lemma roundTiesToEven_error: "\<bar>of_int (roundTiesToEven y) - y\<bar> \<le> 1 / 2"
proof -
  have "of_int \<lfloor>y\<rfloor> \<le> y" "y < of_int \<lfloor>y\<rfloor> + 1" by linarith+
  then show ?thesis by (auto simp: roundTiesToEven_def Let_def)
qed

lemma roundTiesToEven_nonneg: "0 \<le> y \<Longrightarrow> 0 \<le> roundTiesToEven y"
  by (auto simp: roundTiesToEven_def Let_def)

lemma binary64_zero: "binary64 0 = 0"
  by (simp add: binary64_def)

lemma binary64_nonneg: "0 \<le> x \<Longrightarrow> 0 \<le> binary64 x"
  by (auto simp: binary64_def Let_def roundTiesToEven_nonneg)

lemma binary64_at:
  assumes x: "0 < x" and lo: "2 powi e \<le> x" and hi: "x < 2 powi (e + 1)" and e: "- 1022 \<le> e"
  shows "binary64 x = of_int (roundTiesToEven (x / 2 powi (e - 52))) * 2 powi (e - 52)"
proof -
  have "2 powr (real_of_int e) \<le> x" "x < 2 powr (real_of_int e + 1)"
    using lo hi powr_real_of_int' [of 2 e] powr_real_of_int' [of 2 "e + 1"] by simp_all
  then have "\<lfloor>log 2 x\<rfloor> = e"
    using x floor_log_eq_powr_iff [of x 2 e] by simp
  then show ?thesis using x e by (simp add: binary64_def Let_def)
qed

lemma binary64_error:
  assumes "0 \<le> x"
  shows "\<bar>binary64 x - x\<bar> \<le> x / 2 ^ 53 + 2 powi (- 1075)"
proof (cases "x = 0")
  case True
  then show ?thesis by (simp add: binary64_def)
next
  case False
  with assms have x: "0 < x" by simp
  define e where "e = max (- 1022) \<lfloor>log 2 x\<rfloor>"
  define u :: real where "u = 2 powi (e - 52)"
  have u: "0 < u" by (simp add: u_def)
  have val: "binary64 x = of_int (roundTiesToEven (x / u)) * u"
    using x by (simp add: binary64_def Let_def e_def u_def)
  have "binary64 x - x = (of_int (roundTiesToEven (x / u)) - x / u) * u"
    using u unfolding val by (simp add: field_simps)
  then have "\<bar>binary64 x - x\<bar> = \<bar>of_int (roundTiesToEven (x / u)) - x / u\<bar> * \<bar>u\<bar>"
    by (simp only: abs_mult)
  also have "\<dots> = \<bar>of_int (roundTiesToEven (x / u)) - x / u\<bar> * u"
    using u by simp
  also have "\<dots> \<le> (1 / 2) * u"
    using u roundTiesToEven_error [of "x / u"] by (intro mult_right_mono) simp_all
  finally have err: "\<bar>binary64 x - x\<bar> \<le> u / 2" by simp
  have "u / 2 \<le> x / 2 ^ 53 + 2 powi (- 1075)"
  proof (cases "- 1022 \<le> \<lfloor>log 2 x\<rfloor>")
    case True
    then have e: "e = \<lfloor>log 2 x\<rfloor>" by (simp add: e_def)
    have "real_of_int e \<le> log 2 x" unfolding e by linarith
    then have "2 powr (real_of_int e) \<le> x" using x by (simp add: le_log_iff)
    then have "2 powi e \<le> x" using powr_real_of_int' [of 2 e] by simp
    moreover have "u = 2 powi e / 2 ^ 52"
      unfolding u_def by (simp add: power_int_diff)
    ultimately have "u \<le> x / 2 ^ 52" by (simp add: divide_right_mono)
    then have "u / 2 \<le> x / 2 ^ 53" by simp
    moreover have "(0::real) \<le> 2 powi (- 1075)" by simp
    ultimately show ?thesis by linarith
  next
    case False
    then have "e = - 1022" by (simp add: e_def)
    then have "u = 2 powi (- 1074)" by (simp add: u_def)
    then have "u / 2 = 2 powi (- 1075)"
      using power_int_diff [of "2::real" "- 1074" 1] by simp
    then show ?thesis using x by simp
  qed
  with err show ?thesis by linarith
qed


lemma abs_diff_bounds:
  fixes x y d :: real
  assumes "\<bar>x - y\<bar> \<le> d"
  shows "y - d \<le> x" and "x \<le> y + d"
  using assms by linarith+

lemma binary64_close:
  assumes "0 \<le> x" "x \<le> K"
  shows "\<bar>binary64 x - x\<bar> \<le> (K + 1) / 10000"
proof -
  have "(2::real) powi (- 1075) \<le> 2 powi (- 14)"
    by (rule power_int_increasing) simp_all
  then have eta: "(2::real) powi (- 1075) \<le> 1 / 10000" by simp
  have "x / 2 ^ 53 \<le> x / 10000" using assms(1) by (intro divide_left_mono) simp_all
  also have "\<dots> \<le> K / 10000" using assms(2) by simp
  finally have "x / 2 ^ 53 + 2 powi (- 1075) \<le> (K + 1) / 10000"
    using eta by (simp add: add_divide_distrib)
  with binary64_error [OF assms(1)] show ?thesis by linarith
qed

lemma blendValue_bounds:
  assumes c: "0 \<le> c" "c \<le> 255" and n: "0 \<le> n" "n \<le> 255" and a: "0 \<le> a" "a \<le> 1"
  shows "0 \<le> blendValue c n a" and "blendValue c n a < 256"
    and "\<bar>blendValue c n a - (c * (1 - a) + n * a)\<bar> \<le> 1 / 4"
proof -
  define b where "b = binary64 (1 - a)"
  define p1 where "p1 = binary64 (c * b)"
  define p2 where "p2 = binary64 (n * a)"
  have val: "blendValue c n a = binary64 (p1 + p2)"
    by (simp add: blendValue_def p1_def p2_def b_def)
  have b0: "0 \<le> b" unfolding b_def using a by (intro binary64_nonneg) simp
  have "\<bar>b - (1 - a)\<bar> \<le> (1 + 1) / 10000"
    unfolding b_def using a by (intro binary64_close) simp_all
  from abs_diff_bounds [OF this]
  have bl: "1 - a - 2 / 10000 \<le> b" and bu: "b \<le> 1 - a + 2 / 10000" by simp_all
  have cb0: "0 \<le> c * b" using c b0 by simp
  have "c * b \<le> c * (1 - a + 2 / 10000)" using bu c by (intro mult_left_mono) simp_all
  also have "\<dots> = c * (1 - a) + c * (2 / 10000)" by (simp add: algebra_simps)
  also have "\<dots> \<le> c * (1 - a) + 255 * (2 / 10000)" using c by simp
  finally have cbu: "c * b \<le> c * (1 - a) + 51 / 1000" by simp
  have "c * (1 - a - 2 / 10000) \<le> c * b" using bl c by (intro mult_left_mono) simp_all
  moreover have "c * (1 - a - 2 / 10000) = c * (1 - a) - c * (2 / 10000)" by (simp add: algebra_simps)
  moreover have "c * (2 / 10000) \<le> 255 * (2 / 10000)" using c by simp
  ultimately have cbl: "c * (1 - a) - 51 / 1000 \<le> c * b" by simp
  have "c * (1 - a) \<le> 255 * 1" using c a by (intro mult_mono) simp_all
  then have ca: "c * (1 - a) \<le> 255" by simp
  have ca0: "0 \<le> c * (1 - a)" using c a by simp
  have cb256: "c * b \<le> 256" using cbu ca by linarith
  have p10: "0 \<le> p1" unfolding p1_def by (rule binary64_nonneg [OF cb0])
  have "\<bar>p1 - c * b\<bar> \<le> (256 + 1) / 10000"
    unfolding p1_def by (rule binary64_close [OF cb0 cb256])
  from abs_diff_bounds [OF this]
  have p1l: "c * b - 257 / 10000 \<le> p1" and p1u: "p1 \<le> c * b + 257 / 10000" by simp_all
  have na0: "0 \<le> n * a" using n a by simp
  have "n * a \<le> 255 * 1" using n a by (intro mult_mono) simp_all
  then have na: "n * a \<le> 256" by simp
  have p20: "0 \<le> p2" unfolding p2_def by (rule binary64_nonneg [OF na0])
  have "\<bar>p2 - n * a\<bar> \<le> (256 + 1) / 10000"
    unfolding p2_def by (rule binary64_close [OF na0 na])
  from abs_diff_bounds [OF this]
  have p2l: "n * a - 257 / 10000 \<le> p2" and p2u: "p2 \<le> n * a + 257 / 10000" by simp_all
  have s0: "0 \<le> p1 + p2" using p10 p20 by simp
  have "c * (1 - a) + n * a \<le> 255 * (1 - a) + 255 * a"
    using c n a by (intro add_mono mult_right_mono) simp_all
  then have ex: "c * (1 - a) + n * a \<le> 255" by (simp add: algebra_simps)
  have s256: "p1 + p2 \<le> 256" using p1u p2u cbu ex by linarith
  show "0 \<le> blendValue c n a" unfolding val by (rule binary64_nonneg [OF s0])
  have "\<bar>binary64 (p1 + p2) - (p1 + p2)\<bar> \<le> (256 + 1) / 10000"
    by (rule binary64_close [OF s0 s256])
  from abs_diff_bounds [OF this]
  have sl: "p1 + p2 - 257 / 10000 \<le> blendValue c n a"
    and su: "blendValue c n a \<le> p1 + p2 + 257 / 10000"
    unfolding val by simp_all
  show "blendValue c n a < 256" using su p1u p2u cbu ex by linarith
  show "\<bar>blendValue c n a - (c * (1 - a) + n * a)\<bar> \<le> 1 / 4"
    using sl su p1l p1u p2l p2u cbl cbu by linarith
qed


text \<open>
  C10, amended. blendNoiseWithContent fails exactly when the two buffers differ in
  length; a blend strength outside \<open>[0, 1]\<close> is clamped, never rejected. Otherwise it
  returns a buffer of the common length whose byte \<open>i\<close> is the floor of
  \<open>content[i] * (1 - alpha) + noise[i] * alpha\<close> as evaluated in double precision, each
  operation rounded. That value lies in \<open>[0, 256)\<close>, so the store into the byte array
  does not wrap, and the byte differs from the floor of the exact value by at most 1.
\<close>

theorem blendNoiseWithContent_binary64:
  "(isl (blendNoiseWithContent content noise blendStrength)
      \<longleftrightarrow> length content \<noteq> length noise)
   \<and> (length content = length noise \<longrightarrow>
        (\<exists>buf. blendNoiseWithContent content noise blendStrength = Inr buf
           \<and> length buf = length content
           \<and> (\<forall>i < length content.
                uint (buf ! i) =
                  \<lfloor>blendValue (byteVal (content ! i)) (byteVal (noise ! i))
                     (max 0 (min 1 blendStrength))\<rfloor>
              \<and> \<bar>uint (buf ! i)
                   - \<lfloor>byteVal (content ! i) * (1 - max 0 (min 1 blendStrength))
                       + byteVal (noise ! i) * max 0 (min 1 blendStrength)\<rfloor>\<bar> \<le> 1)))"
proof -
  define alpha where "alpha = max 0 (min 1 blendStrength)"
  have a01: "0 \<le> alpha" "alpha \<le> 1" by (simp_all add: alpha_def)
  have store: "uint (toUint8 \<lfloor>blendValue (byteVal c) (byteVal n) alpha\<rfloor>)
        = \<lfloor>blendValue (byteVal c) (byteVal n) alpha\<rfloor>
      \<and> \<bar>\<lfloor>blendValue (byteVal c) (byteVal n) alpha\<rfloor>
           - \<lfloor>byteVal c * (1 - alpha) + byteVal n * alpha\<rfloor>\<bar> \<le> 1" for c n :: byte
  proof -
    let ?S = "blendValue (byteVal c) (byteVal n) alpha"
    let ?E = "byteVal c * (1 - alpha) + byteVal n * alpha"
    note bv = blendValue_bounds [OF byteVal_nonneg byteVal_le_255 byteVal_nonneg byteVal_le_255 a01,
        of c n]
    have lo: "0 \<le> \<lfloor>?S\<rfloor>" using bv(1) by simp
    have hi: "\<lfloor>?S\<rfloor> < 256" using bv(2) by (simp add: floor_less_iff)
    have eq: "uint (toUint8 \<lfloor>?S\<rfloor>) = \<lfloor>?S\<rfloor>" by (rule uint_toUint8 [OF lo hi])
    from abs_diff_bounds [OF bv(3)] have "?E - 1 / 4 \<le> ?S" "?S \<le> ?E + 1 / 4" .
    then have "\<lfloor>?E\<rfloor> - 1 \<le> \<lfloor>?S\<rfloor>" "\<lfloor>?S\<rfloor> \<le> \<lfloor>?E\<rfloor> + 1" by linarith+
    then have "\<bar>\<lfloor>?S\<rfloor> - \<lfloor>?E\<rfloor>\<bar> \<le> 1" by linarith
    with eq show ?thesis by simp
  qed
  show ?thesis
    by (simp add: blendNoiseWithContent_def Let_def store alpha_def [symmetric])
qed

theorem blendNoiseWithContent_binary64_witness:
  "length [100, 200 :: byte] = length [0, 50 :: byte]
   \<and> blendNoiseWithContent [100, 200] [0, 50] 1.5 = Inr [0, 50]
   \<and> isl (blendNoiseWithContent [100, 200] [0] (1 / 2))"
proof -
  have f50: "binary64 50 = 50"
    using binary64_at [of 50 5] by (simp add: roundTiesToEven_def)
  have b0: "blendValue (byteVal 100) (byteVal 0) 1 = 0"
    by (simp add: blendValue_def binary64_zero byteVal_def)
  have b1: "blendValue (byteVal 200) (byteVal 50) 1 = 50"
    by (simp add: blendValue_def binary64_zero byteVal_def f50)
  have a1: "max 0 (min 1 (1.5 :: real)) = 1" by simp
  from blendNoiseWithContent_binary64 [of "[100, 200]" "[0, 50]" "1.5"]
  obtain buf where buf: "blendNoiseWithContent [100, 200] [0, 50] 1.5 = Inr buf"
    and len: "length buf = 2"
    and el: "\<forall>i < 2. uint (buf ! i)
        = \<lfloor>blendValue (byteVal ([100, 200] ! i)) (byteVal ([0, 50] ! i)) 1\<rfloor>"
    unfolding a1 by auto
  from el have "uint (buf ! 0) = 0" using b0 by simp
  then have e0: "buf ! 0 = 0" by (simp add: word_uint_eq_iff)
  from el have "uint (buf ! 1) = \<lfloor>blendValue (byteVal 200) (byteVal 50) 1\<rfloor>"
    by (simp del: One_nat_def)
  then have "uint (buf ! 1) = 50" unfolding b1 by simp
  then have e1: "buf ! 1 = 50" by (simp add: word_uint_eq_iff)
  have "buf = [0, 50]"
  proof (rule nth_equalityI)
    show "length buf = length [0, 50 :: byte]" using len by simp
    fix i assume "i < length buf"
    then have "i = 0 \<or> i = 1" using len by auto
    then show "buf ! i = [0, 50] ! i" using e0 e1 by auto
  qed
  moreover have "isl (blendNoiseWithContent [100, 200] [0] (1 / 2))"
    using blendNoiseWithContent_binary64 [of "[100, 200]" "[0]" "1 / 2"] by simp
  ultimately show ?thesis using buf by simp
qed

lemma binary64_of_q:
  "binary64 (1 - 5404319552844595 / 18014398509481984) = 6305039478318694 / 9007199254740992"
  using binary64_at [of "1 - 5404319552844595 / 18014398509481984" "- 1"]
  by (simp add: roundTiesToEven_def)

lemma binary64_p1:
  "binary64 (3 * (6305039478318694 / 9007199254740992)) = 4728779608739020 / 2251799813685248"
  using binary64_at [of "3 * (6305039478318694 / 9007199254740992)" 1]
  by (simp add: roundTiesToEven_def)

lemma binary64_p2:
  "binary64 (3 * (5404319552844595 / 18014398509481984)) = 8106479329266892 / 9007199254740992"
  using binary64_at [of "3 * (5404319552844595 / 18014398509481984)" "- 1"]
  by (simp add: roundTiesToEven_def)

lemma binary64_sum:
  "binary64 (4728779608739020 / 2251799813685248 + 8106479329266892 / 9007199254740992)
     = 6755399441055743 / 2251799813685248"
  using binary64_at [of "4728779608739020 / 2251799813685248 + 8106479329266892 / 9007199254740992" 1]
  by (simp add: roundTiesToEven_def)

text \<open>
  C10, as stated, fails. For one content byte 3, one noise byte 3 and the blend
  strength the texture path passes (the double written \<open>0.3\<close>, which is
  \<open>5404319552844595 / 2 ^ 54\<close>), the exact value of the blend is 3, but the rounded
  products \<open>2.0999999999999996\<close> and \<open>0.8999999999999999\<close> add up to
  \<open>2.9999999999999996\<close> and the byte returned is 2.
\<close>

theorem blendNoiseWithContent_exact_floor_counterexample:
  "blendNoiseWithContent [3] [3] (5404319552844595 / 18014398509481984) = Inr [2]
   \<and> \<lfloor>byteVal 3 * (1 - 5404319552844595 / 18014398509481984)
        + byteVal 3 * (5404319552844595 / 18014398509481984)\<rfloor> = 3"
proof -
  have v: "byteVal 3 = 3" by (simp add: byteVal_def)
  have bv: "blendValue 3 3 (5404319552844595 / 18014398509481984)
      = 6755399441055743 / 2251799813685248"
    unfolding blendValue_def binary64_of_q binary64_p1 binary64_p2 binary64_sum ..
  have "\<lfloor>blendValue 3 3 (5404319552844595 / 18014398509481984)\<rfloor> = 2"
    unfolding bv by simp
  then have "blendNoiseWithContent [3] [3] (5404319552844595 / 18014398509481984) = Inr [2]"
    by (simp add: blendNoiseWithContent_def v toUint8_def)
  then show ?thesis by (simp add: v)
qed


subsection \<open>Bounds of the analysis windows\<close>

lemma analyzeContext_window_fits_iff:
  assumes "isRegionValid r s"
  shows "extract_area s (analyzeContext_expandedRegion r) \<noteq> Inl BadExtractArea \<longleftrightarrow>
           max 0 (reg_x r - 30) + reg_width r + 60 \<le> size_width s
         \<and> max 0 (reg_y r - 30) + reg_height r + 60 \<le> size_height s"
  using assms
  by (auto simp add: extract_area_def analyzeContext_expandedRegion_def isRegionValid_def)

text \<open>
  C1, evaluated on the code at the specification's own scenario. The 5 by 5 region at
  (0,0) of a 10 by 10 image satisfies the claim's bounds and passes the region block
  unchanged; the context-analysis window computed from it is 65 by 65, the
  noise-analysis window 30 by 30 and the edge-detection window 105 by 105; each
  extraction fails, and processWatermarkRemoval ends in the wrapped extract error
  whatever the pixel statistics, the synthesis and the options are.
\<close>

theorem processWatermarkRemoval_small_image_extract_fails:
  "isRegionValid \<lparr> reg_x = 0, reg_y = 0, reg_width = 5, reg_height = 5 \<rparr>
      \<lparr> size_width = 10, size_height = 10 \<rparr>
   \<and> processWatermarkRemoval_region 10 10
        \<lparr> area_x = 0, area_y = 0, area_width = 5, area_height = 5 \<rparr>
       = Inr \<lparr> reg_x = 0, reg_y = 0, reg_width = 5, reg_height = 5 \<rparr>
   \<and> analyzeContext_expandedRegion \<lparr> reg_x = 0, reg_y = 0, reg_width = 5, reg_height = 5 \<rparr>
       = \<lparr> reg_x = 0, reg_y = 0, reg_width = 65, reg_height = 65 \<rparr>
   \<and> extract_area \<lparr> size_width = 10, size_height = 10 \<rparr>
        (analyzeContext_expandedRegion \<lparr> reg_x = 0, reg_y = 0, reg_width = 5, reg_height = 5 \<rparr>)
       = Inl BadExtractArea
   \<and> extract_area \<lparr> size_width = 10, size_height = 10 \<rparr>
        (analyzeLocalNoise_expandedRegion \<lparr> size_width = 10, size_height = 10 \<rparr>
           \<lparr> reg_x = 0, reg_y = 0, reg_width = 5, reg_height = 5 \<rparr>)
       = Inl BadExtractArea
   \<and> extract_area \<lparr> size_width = 10, size_height = 10 \<rparr>
        (detectEdges_expandedRegion \<lparr> reg_x = 0, reg_y = 0, reg_width = 5, reg_height = 5 \<rparr>)
       = Inl BadExtractArea
   \<and> processWatermarkRemoval stats inpaint
        \<lparr> meta_width = Some 10, meta_height = Some 10 \<rparr>
        \<lparr> area_x = 0, area_y = 0, area_width = 5, area_height = 5 \<rparr> options
       = Inl (InpaintingFailed BadExtractArea)"
  by (simp add: isRegionValid_def processWatermarkRemoval_region_def
      analyzeContext_expandedRegion_def analyzeLocalNoise_expandedRegion_def
      detectEdges_expandedRegion_def extract_area_def processWatermarkRemoval_def
      analyzeContext_def dimension_missing_def)

text \<open>
  C4, as stated, fails: a request with zero width and negative height inside a 200 by
  200 image is not rejected; the region block turns it into the 1 by 1 region at the
  same origin and the pipeline goes on to the synthesis with it.
\<close>

theorem processWatermarkRemoval_nonpositive_extent_counterexample:
  "processWatermarkRemoval_region 200 200
       \<lparr> area_x = 100, area_y = 100, area_width = 0, area_height = -3 \<rparr>
     = Inr \<lparr> reg_x = 100, reg_y = 100, reg_width = 1, reg_height = 1 \<rparr>
   \<and> processWatermarkRemoval (\<lambda>w. (0, 0, 0, 0)) (\<lambda>m r opts. Inr (m, r))
        \<lparr> meta_width = Some 200, meta_height = Some 200 \<rparr>
        \<lparr> area_x = 100, area_y = 100, area_width = 0, area_height = -3 \<rparr>
        \<lparr> opt_featherRadius = 20, opt_samplingRadius = 40, opt_textureAnalysisDepth = 3,
          opt_noiseMatching = True, opt_edgePreservation = True, opt_qualityLevel = Balanced \<rparr>
     = Inr (Basic, \<lparr> reg_x = 100, reg_y = 100, reg_width = 1, reg_height = 1 \<rparr>)"
  by (simp add: processWatermarkRemoval_region_def processWatermarkRemoval_def
      analyzeContext_def analyzeContext_expandedRegion_def extract_area_def
      dimension_missing_def determineInpaintingMethod_def)

text \<open>
  C4, amended. For an image of known positive dimensions, the region block of
  processWatermarkRemoval raises the invalid-region error exactly when the origin,
  floored and raised to 0, lies at or beyond the image's width or height; the error
  then leaves processWatermarkRemoval (wrapped) whatever the pixel statistics,
  synthesis and options are, that is, before any pixel work. In every other case,
  also for a non-positive width or height or an origin left of or above the image,
  nothing is rejected: the request is clamped to a valid region whose extents are at
  least 1.
\<close>

theorem processWatermarkRemoval_invalid_region:
  assumes "0 < W" and "0 < H"
  shows "(processWatermarkRemoval_region W H a = Inl InvalidRegionBounds
            \<longleftrightarrow> W \<le> max 0 \<lfloor>area_x a\<rfloor> \<or> H \<le> max 0 \<lfloor>area_y a\<rfloor>)
    \<and> (processWatermarkRemoval_region W H a = Inl InvalidRegionBounds \<longrightarrow>
         processWatermarkRemoval stats inpaint \<lparr> meta_width = Some W, meta_height = Some H \<rparr>
           a options = Inl (InpaintingFailed InvalidRegionBounds))
    \<and> (processWatermarkRemoval_region W H a \<noteq> Inl InvalidRegionBounds \<longrightarrow>
         (\<exists>r. processWatermarkRemoval_region W H a = Inr r
            \<and> isRegionValid r \<lparr> size_width = W, size_height = H \<rparr>
            \<and> reg_x r = max 0 \<lfloor>area_x a\<rfloor> \<and> reg_y r = max 0 \<lfloor>area_y a\<rfloor>
            \<and> reg_width r = max 1 (min (W - reg_x r) \<lfloor>area_width a\<rfloor>)
            \<and> reg_height r = max 1 (min (H - reg_y r) \<lfloor>area_height a\<rfloor>)))"
  using assms
  by (auto simp add: processWatermarkRemoval_region_def processWatermarkRemoval_def
      isRegionValid_def dimension_missing_def Let_def)

theorem processWatermarkRemoval_invalid_region_witness:
  "processWatermarkRemoval_region 10 10
       \<lparr> area_x = 10, area_y = 0, area_width = 5, area_height = 5 \<rparr> = Inl InvalidRegionBounds
   \<and> processWatermarkRemoval (\<lambda>w. (0, 0, 0, 0)) (\<lambda>m r opts. Inr (m, r))
        \<lparr> meta_width = Some 10, meta_height = Some 10 \<rparr>
        \<lparr> area_x = 10, area_y = 0, area_width = 5, area_height = 5 \<rparr>
        \<lparr> opt_featherRadius = 20, opt_samplingRadius = 40, opt_textureAnalysisDepth = 3,
          opt_noiseMatching = True, opt_edgePreservation = True, opt_qualityLevel = Balanced \<rparr>
       = Inl (InpaintingFailed InvalidRegionBounds)
   \<and> processWatermarkRemoval_region 10 10
       \<lparr> area_x = -4, area_y = 2.5, area_width = 0, area_height = 50 \<rparr>
       = Inr \<lparr> reg_x = 0, reg_y = 2, reg_width = 1, reg_height = 8 \<rparr>"
proof -
  have pos: "(0::int) < 10" by simp
  have b: "processWatermarkRemoval_region 10 10
       \<lparr> area_x = -4, area_y = 2.5, area_width = 0, area_height = 50 \<rparr>
       = Inr \<lparr> reg_x = 0, reg_y = 2, reg_width = 1, reg_height = 8 \<rparr>"
    by (simp add: processWatermarkRemoval_region_def)
  show ?thesis
    using processWatermarkRemoval_invalid_region [OF pos pos,
        of "\<lparr> area_x = 10, area_y = 0, area_width = 5, area_height = 5 \<rparr>"
           "\<lambda>w. (0, 0, 0, 0)" "\<lambda>m r opts. Inr (m, r)"
           "\<lparr> opt_featherRadius = 20, opt_samplingRadius = 40, opt_textureAnalysisDepth = 3,
              opt_noiseMatching = True, opt_edgePreservation = True, opt_qualityLevel = Balanced \<rparr>"] b
    by simp
qed

subsection \<open>Texture synthesis and randomness\<close>

lemma length_concat_fixed:
  "(\<And>x. x \<in> set xs \<Longrightarrow> length (f x) = k) \<Longrightarrow> length (concat (map f xs)) = k * length xs"
  by (induction xs) simp_all






subsection \<open>Feather mask\<close>

lemma falloff_range: "0 < generateGaussianFalloff d s" "generateGaussianFalloff d s \<le> 1"
  by (simp_all add: generateGaussianFalloff_def Let_def)

lemma falloff_one_iff: "s \<noteq> 0 \<Longrightarrow> generateGaussianFalloff d s = 1 \<longleftrightarrow> d = 0"
  by (simp add: generateGaussianFalloff_def Let_def)

lemma falloff_antimono:
  assumes "0 < s" "0 \<le> d1" "d1 \<le> d2"
  shows "generateGaussianFalloff d2 s \<le> generateGaussianFalloff d1 s"
proof -
  have "d1 / s \<le> d2 / s" using assms by (simp add: divide_right_mono)
  moreover have "0 \<le> d1 / s" using assms by simp
  ultimately have "(d1 / s) * (d1 / s) \<le> (d2 / s) * (d2 / s)"
    by (intro mult_mono) simp_all
  then show ?thesis by (simp add: generateGaussianFalloff_def Let_def)
qed

lemma floor255_range:
  assumes "0 \<le> v" "v \<le> 1"
  shows "0 \<le> \<lfloor>v * 255 :: real\<rfloor>" "\<lfloor>v * 255 :: real\<rfloor> < 256"
proof -
  show "0 \<le> \<lfloor>v * 255\<rfloor>" using assms by simp
  have "v * 255 \<le> 255" using assms by simp
  then have "\<lfloor>v * 255\<rfloor> \<le> 255" by (simp add: floor_le_iff)
  then show "\<lfloor>v * 255\<rfloor> < 256" by simp
qed

lemma floor255_full_iff:
  assumes "0 \<le> v" "v \<le> 1"
  shows "\<lfloor>v * 255 :: real\<rfloor> = 255 \<longleftrightarrow> v = 1"
proof
  assume "\<lfloor>v * 255\<rfloor> = 255"
  then have "255 \<le> v * 255" by (simp add: floor_eq_iff)
  with assms show "v = 1" by simp
next
  assume "v = 1" then show "\<lfloor>v * 255\<rfloor> = 255" by simp
qed

lemma maskIndex:
  assumes "0 < W" "0 \<le> px" "px < W" "0 \<le> py" "py < H"
  shows "nat (py * W + px) < nat (W * H)"
    and "int (nat (py * W + px)) mod W = px"
    and "int (nat (py * W + px)) div W = py"
proof -
  have "py + 1 \<le> H" using assms by simp
  then have "(py + 1) * W \<le> H * W" using assms by (intro mult_right_mono) simp_all
  then have lt: "py * W + px < W * H" using assms by (simp add: algebra_simps)
  have nn: "0 \<le> py * W + px" using assms by simp
  show "nat (py * W + px) < nat (W * H)" using lt nn by simp
  show "int (nat (py * W + px)) mod W = px" using nn assms by simp
  show "int (nat (py * W + px)) div W = py" using nn assms by simp
qed

lemma createFeatherMask_nth:
  assumes "0 < size_width s" "0 \<le> px" "px < size_width s" "0 \<le> py" "py < size_height s"
  shows "createFeatherMask region s r ! nat (py * size_width s + px) = featherMaskPixel region r px py"
  using maskIndex [OF assms]
  by (simp add: createFeatherMask_def Let_def)

lemma length_createFeatherMask:
  "length (createFeatherMask region s r) = nat (size_width s * size_height s)"
  by (simp add: createFeatherMask_def Let_def)

lemma featherMaskPixel_inside:
  assumes "isInsideRegion x y region"
  shows "uint (featherMaskPixel region r x y)
     = \<lfloor>generateGaussianFalloff (real_of_int (distanceToRegionEdge x y region)) r * 255\<rfloor>"
  using assms falloff_range [of "real_of_int (distanceToRegionEdge x y region)" r]
  by (simp add: featherMaskPixel_def Let_def uint_toUint8 floor255_range)

lemma featherMaskPixel_near:
  assumes "\<not> isInsideRegion x y region" "distanceToRegion x y region \<le> r"
  shows "uint (featherMaskPixel region r x y)
     = \<lfloor>(1 - generateGaussianFalloff (r - distanceToRegion x y region) r) * 255\<rfloor>"
    and "uint (featherMaskPixel region r x y) < 255"
proof -
  let ?f = "generateGaussianFalloff (r - distanceToRegion x y region) r"
  have f: "0 < ?f" "?f \<le> 1" by (rule falloff_range)+
  then have g: "0 \<le> 1 - ?f" "1 - ?f \<le> 1" by simp_all
  show eq: "uint (featherMaskPixel region r x y) = \<lfloor>(1 - ?f) * 255\<rfloor>"
    using assms floor255_range [OF g]
    by (simp add: featherMaskPixel_def Let_def uint_toUint8)
  have "(1 - ?f) * 255 < 255" using f by simp
  then have "\<lfloor>(1 - ?f) * 255\<rfloor> < 255" by (simp add: floor_less_iff)
  with eq show "uint (featherMaskPixel region r x y) < 255" by simp
qed

lemma featherMaskPixel_far:
  assumes "\<not> isInsideRegion x y region" "distanceToRegion x y region > r"
  shows "featherMaskPixel region r x y = 0"
  using assms by (simp add: featherMaskPixel_def Let_def)

lemma distanceToRegionEdge_inside:
  "isInsideRegion x y region \<Longrightarrow> 0 \<le> distanceToRegionEdge x y region"
  by (simp add: isInsideRegion_def distanceToRegionEdge_def Let_def)


text \<open>
  C7, amended. For a positive feather radius, createFeatherMask returns a mask of one
  byte per image pixel. Inside the region the value is
  \<open>floor (255 * exp (- (d / radius)^2 / 2))\<close> with \<open>d\<close> the distance to the nearest
  region edge: it is 255 exactly where that distance is 0 (the region's top and left
  border pixels) and does not increase as the distance grows, so it is lowest at the
  region's centre. Outside the region at distance at most the radius the value is
  \<open>floor (255 * (1 - exp (- ((radius - dist) / radius)^2 / 2)))\<close>, below 255; farther
  than the radius it is 0.
\<close>

theorem createFeatherMask_values:
  assumes r: "0 < r" and W: "0 < size_width s"
    and p: "0 \<le> px" "px < size_width s" "0 \<le> py" "py < size_height s"
  shows "length (createFeatherMask region s r) = nat (size_width s * size_height s)
    \<and> (isInsideRegion px py region \<longrightarrow>
          uint (createFeatherMask region s r ! nat (py * size_width s + px))
            = \<lfloor>generateGaussianFalloff (real_of_int (distanceToRegionEdge px py region)) r * 255\<rfloor>
        \<and> (uint (createFeatherMask region s r ! nat (py * size_width s + px)) = 255
              \<longleftrightarrow> distanceToRegionEdge px py region = 0)
        \<and> (\<forall>qx qy. 0 \<le> qx \<and> qx < size_width s \<and> 0 \<le> qy \<and> qy < size_height s
              \<and> isInsideRegion qx qy region
              \<and> distanceToRegionEdge px py region \<le> distanceToRegionEdge qx qy region \<longrightarrow>
              uint (createFeatherMask region s r ! nat (qy * size_width s + qx))
                \<le> uint (createFeatherMask region s r ! nat (py * size_width s + px))))
    \<and> (\<not> isInsideRegion px py region \<and> distanceToRegion px py region \<le> r \<longrightarrow>
          uint (createFeatherMask region s r ! nat (py * size_width s + px))
            = \<lfloor>(1 - generateGaussianFalloff (r - distanceToRegion px py region) r) * 255\<rfloor>
        \<and> uint (createFeatherMask region s r ! nat (py * size_width s + px)) < 255)
    \<and> (\<not> isInsideRegion px py region \<and> r < distanceToRegion px py region \<longrightarrow>
          createFeatherMask region s r ! nat (py * size_width s + px) = 0)"
proof -
  let ?m = "createFeatherMask region s r"
  have at: "?m ! nat (py * size_width s + px) = featherMaskPixel region r px py"
    by (rule createFeatherMask_nth [OF W p])
  have inside: "uint (?m ! nat (py * size_width s + px))
            = \<lfloor>generateGaussianFalloff (real_of_int (distanceToRegionEdge px py region)) r * 255\<rfloor>
        \<and> (uint (?m ! nat (py * size_width s + px)) = 255
              \<longleftrightarrow> distanceToRegionEdge px py region = 0)
        \<and> (\<forall>qx qy. 0 \<le> qx \<and> qx < size_width s \<and> 0 \<le> qy \<and> qy < size_height s
              \<and> isInsideRegion qx qy region
              \<and> distanceToRegionEdge px py region \<le> distanceToRegionEdge qx qy region \<longrightarrow>
              uint (?m ! nat (qy * size_width s + qx))
                \<le> uint (?m ! nat (py * size_width s + px)))"
    if ins: "isInsideRegion px py region"
  proof -
    let ?d = "distanceToRegionEdge px py region"
    let ?f = "generateGaussianFalloff (real_of_int ?d) r"
    have v: "uint (?m ! nat (py * size_width s + px)) = \<lfloor>?f * 255\<rfloor>"
      unfolding at by (rule featherMaskPixel_inside [OF ins])
    have fr: "0 \<le> ?f" "?f \<le> 1"
      using falloff_range [of "real_of_int ?d" r] by simp_all
    have "\<lfloor>?f * 255\<rfloor> = 255 \<longleftrightarrow> ?f = 1" by (rule floor255_full_iff [OF fr])
    also have "\<dots> \<longleftrightarrow> real_of_int ?d = 0" using r by (intro falloff_one_iff) simp
    finally have full: "uint (?m ! nat (py * size_width s + px)) = 255 \<longleftrightarrow> ?d = 0"
      using v by simp
    have mono: "uint (?m ! nat (qy * size_width s + qx)) \<le> uint (?m ! nat (py * size_width s + px))"
      if q: "0 \<le> qx" "qx < size_width s" "0 \<le> qy" "qy < size_height s"
        and qi: "isInsideRegion qx qy region"
        and le: "?d \<le> distanceToRegionEdge qx qy region"
      for qx qy
    proof -
      have "?m ! nat (qy * size_width s + qx) = featherMaskPixel region r qx qy"
        by (rule createFeatherMask_nth [OF W q])
      then have vq: "uint (?m ! nat (qy * size_width s + qx))
          = \<lfloor>generateGaussianFalloff (real_of_int (distanceToRegionEdge qx qy region)) r * 255\<rfloor>"
        using featherMaskPixel_inside [OF qi] by simp
      have "0 \<le> real_of_int ?d" using distanceToRegionEdge_inside [OF ins] by simp
      moreover have "real_of_int ?d \<le> real_of_int (distanceToRegionEdge qx qy region)"
        using le by simp
      ultimately have "generateGaussianFalloff (real_of_int (distanceToRegionEdge qx qy region)) r \<le> ?f"
        using r by (intro falloff_antimono)
      then have "generateGaussianFalloff (real_of_int (distanceToRegionEdge qx qy region)) r * 255
          \<le> ?f * 255" by simp
      then show ?thesis unfolding v vq by (rule floor_mono)
    qed
    from v full mono show ?thesis by blast
  qed
  have near: "uint (?m ! nat (py * size_width s + px))
            = \<lfloor>(1 - generateGaussianFalloff (r - distanceToRegion px py region) r) * 255\<rfloor>
        \<and> uint (?m ! nat (py * size_width s + px)) < 255"
    if "\<not> isInsideRegion px py region" "distanceToRegion px py region \<le> r"
    unfolding at using featherMaskPixel_near [OF that] by simp
  have far: "?m ! nat (py * size_width s + px) = 0"
    if "\<not> isInsideRegion px py region" "r < distanceToRegion px py region"
    unfolding at using featherMaskPixel_far [OF that] by simp
  from inside near far length_createFeatherMask [of region s r] show ?thesis by blast
qed

theorem createFeatherMask_values_witness:
  "length (createFeatherMask \<lparr> reg_x = 0, reg_y = 0, reg_width = 5, reg_height = 5 \<rparr>
      \<lparr> size_width = 7, size_height = 5 \<rparr> (1 / 2)) = 35
   \<and> uint (createFeatherMask \<lparr> reg_x = 0, reg_y = 0, reg_width = 5, reg_height = 5 \<rparr>
      \<lparr> size_width = 7, size_height = 5 \<rparr> (1 / 2) ! 14) = 255
   \<and> createFeatherMask \<lparr> reg_x = 0, reg_y = 0, reg_width = 5, reg_height = 5 \<rparr>
      \<lparr> size_width = 7, size_height = 5 \<rparr> (1 / 2) ! 20 = 0"
proof -
  let ?R = "\<lparr> reg_x = 0, reg_y = 0, reg_width = 5, reg_height = 5 \<rparr>"
  let ?S = "\<lparr> size_width = 7, size_height = 5 \<rparr>"
  have r: "(0::real) < 1 / 2" and W: "0 < size_width ?S" by simp_all
  have a: "0 \<le> (0::int)" "0 < size_width ?S" "0 \<le> (2::int)" "2 < size_height ?S" by simp_all
  have b: "0 \<le> (6::int)" "6 < size_width ?S" "0 \<le> (2::int)" "2 < size_height ?S" by simp_all
  have d6: "distanceToRegion 6 2 ?R = 1"
    by (simp add: distanceToRegion_def)
  show ?thesis
    using createFeatherMask_values [OF r W a, of ?R] createFeatherMask_values [OF r W b, of ?R] d6
    by (simp add: isInsideRegion_def distanceToRegionEdge_def)
qed

text \<open>
  C7, as stated, fails: for the 5 by 5 region covering a 5 by 5 image and radius 1,
  the centre pixel (2,2) is below full opacity while the border pixel (0,2) is at 255;
  the mask is opaque at the region's edge and fades towards its centre, not the
  reverse.
\<close>

theorem createFeatherMask_center_counterexample:
  "uint (createFeatherMask \<lparr> reg_x = 0, reg_y = 0, reg_width = 5, reg_height = 5 \<rparr>
      \<lparr> size_width = 5, size_height = 5 \<rparr> 1 ! 12) < 255
   \<and> uint (createFeatherMask \<lparr> reg_x = 0, reg_y = 0, reg_width = 5, reg_height = 5 \<rparr>
      \<lparr> size_width = 5, size_height = 5 \<rparr> 1 ! 10) = 255"
proof -
  let ?R = "\<lparr> reg_x = 0, reg_y = 0, reg_width = 5, reg_height = 5 \<rparr>"
  let ?S = "\<lparr> size_width = 5, size_height = 5 \<rparr>"
  have c: "createFeatherMask ?R ?S 1 ! nat (2 * size_width ?S + 2) = featherMaskPixel ?R 1 2 2"
    by (rule createFeatherMask_nth) simp_all
  have e: "createFeatherMask ?R ?S 1 ! nat (2 * size_width ?S + 0) = featherMaskPixel ?R 1 0 2"
    by (rule createFeatherMask_nth) simp_all
  have ic: "isInsideRegion 2 2 ?R" and ie: "isInsideRegion 0 2 ?R"
    by (simp_all add: isInsideRegion_def)
  have dc: "distanceToRegionEdge 2 2 ?R = 2" and de: "distanceToRegionEdge 0 2 ?R = 0"
    by (simp_all add: distanceToRegionEdge_def)
  have "generateGaussianFalloff 2 1 < 1"
    by (simp add: generateGaussianFalloff_def)
  then have "generateGaussianFalloff 2 1 * 255 < 255" by simp
  then have "\<lfloor>generateGaussianFalloff 2 1 * 255\<rfloor> < 255" by (simp add: floor_less_iff)
  then have vc: "uint (featherMaskPixel ?R 1 2 2) < 255"
    using featherMaskPixel_inside [OF ic, of 1] dc by simp
  have "generateGaussianFalloff 0 1 = 1" by (simp add: generateGaussianFalloff_def)
  then have ve: "uint (featherMaskPixel ?R 1 0 2) = 255"
    using featherMaskPixel_inside [OF ie, of 1] de by simp
  from c e vc ve show ?thesis by simp
qed

subsection \<open>Quality metrics\<close>


lemma sum_list_bounded:
  fixes f :: "'a \<Rightarrow> real"
  assumes "\<And>x. x \<in> set xs \<Longrightarrow> f x \<le> k"
  shows "(\<Sum>x\<leftarrow>xs. f x) \<le> k * real (length xs)"
  using assms by (induction xs) (auto simp: algebra_simps add_mono)

lemma sum_list_nonneg_real:
  fixes f :: "'a \<Rightarrow> real"
  assumes "\<And>x. x \<in> set xs \<Longrightarrow> 0 \<le> f x"
  shows "0 \<le> (\<Sum>x\<leftarrow>xs. f x)"
  using assms by (induction xs) auto

lemma sq_diff_byte: "(byteVal a - byteVal b) * (byteVal a - byteVal b) \<le> 65025"
proof -
  have "\<bar>byteVal a - byteVal b\<bar> \<le> 255"
    using byteVal_le_255 [of a] byteVal_le_255 [of b] byteVal_nonneg [of a] byteVal_nonneg [of b]
    by linarith
  then have "\<bar>byteVal a - byteVal b\<bar> * \<bar>byteVal a - byteVal b\<bar> \<le> 255 * 255"
    by (intro mult_mono) simp_all
  then show ?thesis by simp
qed

lemma computePSNR_nonneg: "0 \<le> computePSNR original processed"
proof -
  define len where "len = min (length original) (length processed)"
  define S where "S = (\<Sum>i\<leftarrow>[0..<len]. (byteVal (original ! i) - byteVal (processed ! i))
                                  * (byteVal (original ! i) - byteVal (processed ! i)))"
  define mse where "mse = S / real len"
  have psnr: "computePSNR original processed = (if mse > 0 then 10 * log 10 (255 * 255 / mse) else 100)"
    by (simp add: computePSNR_def Let_def mse_def S_def len_def)
  have "S \<le> 65025 * real (length [0..<len])"
    unfolding S_def by (rule sum_list_bounded) (rule sq_diff_byte)
  then have S: "S \<le> 65025 * real len" by simp
  show ?thesis
  proof (cases "mse > 0")
    case True
    then have len: "0 < real len" unfolding mse_def by (cases "len = 0") simp_all
    then have "mse \<le> 65025" using S unfolding mse_def by (simp add: divide_le_eq mult.commute)
    then have one: "1 \<le> 255 * 255 / mse" using True by (simp add: le_divide_eq)
    have "0 < 255 * 255 / mse" using True by simp
    then have "0 \<le> log 10 (255 * 255 / mse)"
      using one zero_le_log_cancel_iff [of 10 "255 * 255 / mse"] by simp
    then show ?thesis using True psnr by simp
  next
    case False
    then show ?thesis using psnr by simp
  qed
qed


lemma sum_sq_bound:
  fixes xs :: "real list"
  shows "(sum_list xs) * (sum_list xs) \<le> real (length xs) * (\<Sum>v\<leftarrow>xs. v * v)"
proof (induction xs)
  case Nil
  then show ?case by simp
next
  case (Cons x xs)
  let ?s = "sum_list xs" and ?q = "(\<Sum>v\<leftarrow>xs. v * v)" and ?n = "real (length xs)"
  have q: "0 \<le> ?q" by (rule sum_list_nonneg_real) simp
  show ?case
  proof (cases "xs = []")
    case True
    then show ?thesis by simp
  next
    case False
    then have n: "0 < ?n" by simp
    have "0 \<le> (?n * x - ?s) * (?n * x - ?s)" by simp
    then have "2 * ?n * x * ?s \<le> ?n * ?n * x * x + ?s * ?s" by (simp add: algebra_simps)
    also have "\<dots> \<le> ?n * ?n * x * x + ?n * ?q" using Cons.IH by simp
    finally have "2 * ?n * x * ?s \<le> ?n * (?n * x * x + ?q)" by (simp add: algebra_simps)
    then have "2 * x * ?s \<le> ?n * x * x + ?q" using n by simp
    then have "(x + ?s) * (x + ?s) \<le> (1 + ?n) * (x * x + ?q)"
      using Cons.IH q by (simp add: algebra_simps)
    then show ?thesis by (simp add: algebra_simps)
  qed
qed

lemma sums_zip:
  fixes a b :: "real list"
  assumes "length a = length b"
  shows "sum_list (map2 (\<lambda>u v. u - v) a b) = sum_list a - sum_list b"
    and "sum_list (map2 (\<lambda>u v. u + v) a b) = sum_list a + sum_list b"
    and "(\<Sum>z\<leftarrow>map2 (\<lambda>u v. u - v) a b. z * z)
          = (\<Sum>v\<leftarrow>a. v * v) - 2 * (\<Sum>(u, v)\<leftarrow>zip a b. u * v) + (\<Sum>v\<leftarrow>b. v * v)"
    and "(\<Sum>z\<leftarrow>map2 (\<lambda>u v. u + v) a b. z * z)
          = (\<Sum>v\<leftarrow>a. v * v) + 2 * (\<Sum>(u, v)\<leftarrow>zip a b. u * v) + (\<Sum>v\<leftarrow>b. v * v)"
  using assms by (induction a b rule: list_induct2) (simp_all add: algebra_simps)


lemma spread_nonneg:
  fixes S1 S2 S11 S22 S12 n :: real
  assumes n: "0 \<le> n"
    and v: "(S1 - S2) * (S1 - S2) \<le> n * (S11 - 2 * S12 + S22)"
  shows "0 \<le> (S11 / n - (S1 / n) * (S1 / n)) + (S22 / n - (S2 / n) * (S2 / n))
              - 2 * (S12 / n - (S1 / n) * (S2 / n))"
proof (cases "n = 0")
  case True
  then show ?thesis by simp
next
  case False
  with n have pos: "0 < n" by simp
  have "(S11 / n - (S1 / n) * (S1 / n)) + (S22 / n - (S2 / n) * (S2 / n))
              - 2 * (S12 / n - (S1 / n) * (S2 / n))
        = (n * (S11 - 2 * S12 + S22) - (S1 - S2) * (S1 - S2)) / (n * n)"
    using pos by (simp add: field_simps)
  also have "0 \<le> \<dots>" using v pos by simp
  finally show ?thesis .
qed

lemma windowSSIM_range:
  assumes len: "length a = length b" and k1: "k1 * L \<noteq> 0" and k2: "k2 * L \<noteq> 0"
  shows "- 1 \<le> windowSSIM a b k1 k2 L \<and> windowSSIM a b k1 k2 L \<le> 1"
proof -
  define n where "n = real (length a)"
  define S1 where "S1 = sum_list a"
  define S2 where "S2 = sum_list b"
  define S11 where "S11 = (\<Sum>v\<leftarrow>a. v * v)"
  define S22 where "S22 = (\<Sum>v\<leftarrow>b. v * v)"
  define S12 where "S12 = (\<Sum>(u, v)\<leftarrow>zip a b. u * v)"
  define mu1 where "mu1 = S1 / n"
  define mu2 where "mu2 = S2 / n"
  define v1 where "v1 = S11 / n - mu1 * mu1"
  define v2 where "v2 = S22 / n - mu2 * mu2"
  define cov where "cov = S12 / n - mu1 * mu2"
  define c1 where "c1 = (k1 * L) * (k1 * L)"
  define c2 where "c2 = (k2 * L) * (k2 * L)"
  define A where "A = 2 * mu1 * mu2 + c1"
  define B where "B = mu1 * mu1 + mu2 * mu2 + c1"
  define C where "C = 2 * cov + c2"
  define D where "D = v1 + v2 + c2"
  have val: "windowSSIM a b k1 k2 L = (A * C) / (B * D)"
    by (simp add: windowSSIM_def Let_def A_def B_def C_def D_def v1_def v2_def cov_def
        mu1_def mu2_def c1_def c2_def S1_def S2_def S11_def S22_def S12_def n_def)
  have c1: "0 < c1"
    using k1 zero_less_power2 [of "k1 * L"] unfolding c1_def power2_eq_square by blast
  have c2: "0 < c2"
    using k2 zero_less_power2 [of "k2 * L"] unfolding c2_def power2_eq_square by blast
  have n0: "0 \<le> n" by (simp add: n_def)
  have lz: "length (map2 (\<lambda>u v. u - v) a b) = length a" "length (map2 (\<lambda>u v. u + v) a b) = length a"
    using len by simp_all
  have "(S1 - S2) * (S1 - S2) \<le> n * (S11 - 2 * S12 + S22)"
    using sum_sq_bound [of "map2 (\<lambda>u v. u - v) a b"] sums_zip(1,3) [OF len]
    unfolding lz S1_def S2_def S11_def S22_def S12_def n_def by simp
  from spread_nonneg [OF n0 this]
  have minus: "0 \<le> v1 + v2 - 2 * cov"
    by (simp add: v1_def v2_def cov_def mu1_def mu2_def)
  have "(S1 + S2) * (S1 + S2) \<le> n * (S11 + 2 * S12 + S22)"
    using sum_sq_bound [of "map2 (\<lambda>u v. u + v) a b"] sums_zip(2,4) [OF len]
    unfolding lz S1_def S2_def S11_def S22_def S12_def n_def by simp
  then have "(S1 - (- S2)) * (S1 - (- S2)) \<le> n * (S11 - 2 * (- S12) + S22)" by simp
  from spread_nonneg [OF n0 this]
  have plus: "0 \<le> v1 + v2 + 2 * cov"
    by (simp add: v1_def v2_def cov_def mu1_def mu2_def)
  have D: "0 < D" and CD: "\<bar>C\<bar> \<le> D"
    using minus plus c2 by (simp_all add: D_def C_def abs_le_iff)
  have "0 \<le> (mu1 - mu2) * (mu1 - mu2)" "0 \<le> (mu1 + mu2) * (mu1 + mu2)" by simp_all
  then have B: "0 < B" and AB: "\<bar>A\<bar> \<le> B"
    using c1 by (simp_all add: A_def B_def abs_le_iff algebra_simps)
  have "\<bar>A * C\<bar> \<le> B * D"
    unfolding abs_mult using AB CD by (intro mult_mono) simp_all
  then have le: "A * C \<le> B * D" "- (B * D) \<le> A * C" by linarith+
  have pos: "0 < B * D" using B D by simp
  have "(A * C) / (B * D) \<le> 1" using le(1) pos by (simp only: divide_le_eq_1_pos)
  moreover have "- 1 \<le> (A * C) / (B * D)"
    using le(2) pos by (simp add: pos_le_divide_eq)
  ultimately show ?thesis unfolding val by simp
qed


lemma those_Some_length: "those xs = Some ys \<Longrightarrow> length ys = length xs"
  by (induction xs arbitrary: ys) (auto split: option.splits)

lemma those_Some_mem: "those xs = Some ys \<Longrightarrow> y \<in> set ys \<Longrightarrow> Some y \<in> set xs"
  by (induction xs arbitrary: ys) (auto split: option.splits)

lemma those_None_iff: "those xs = None \<longleftrightarrow> None \<in> set xs"
  by (induction xs) (auto split: option.splits)

lemma computeWindowSSIM_range:
  assumes "computeWindowSSIM w1 w2 k1 k2 L = Some v" and "k1 * L \<noteq> 0" and "k2 * L \<noteq> 0"
  shows "- 1 \<le> v \<and> v \<le> 1"
proof -
  from assms(1) obtain a b where a: "those w1 = Some a"
    and b: "those (map (\<lambda>i. if i < length w2 then w2 ! i else None) [0..<length w1]) = Some b"
    and v: "v = windowSSIM a b k1 k2 L"
    by (auto simp: computeWindowSSIM_def Let_def split: option.splits)
  have "length a = length b"
    using those_Some_length [OF a] those_Some_length [OF b] by simp
  from windowSSIM_range [OF this assms(2) assms(3)] show ?thesis unfolding v .
qed

lemma sum_list_unit_range:
  fixes vs :: "real list"
  assumes "\<And>v. v \<in> set vs \<Longrightarrow> - 1 \<le> v \<and> v \<le> 1"
  shows "- real (length vs) \<le> sum_list vs \<and> sum_list vs \<le> real (length vs)"
  using assms by (induction vs) (auto, force+)

lemma computeSSIM_range:
  assumes "computeSSIM original processed width height = Some s"
  shows "- 1 \<le> s \<and> s \<le> 1"
proof -
  define vals where "vals = concat (map (\<lambda>j. map (\<lambda>i.
                      computeWindowSSIM
                        (extractWindow original width (int i * int 11) (int j * int 11) 11)
                        (extractWindow processed width (int i * int 11) (int j * int 11) 11)
                        0.01 0.03 255)
                      [0..<nat (width div int 11)])
                    [0..<nat (height div int 11)])"
  have eq: "computeSSIM original processed width height =
     (if vals = [] then Some 1
         else case those vals of
                None \<Rightarrow> None
              | Some vs \<Rightarrow> Some (sum_list vs / real (length vs)))"
    by (simp add: computeSSIM_def Let_def vals_def)
  show ?thesis
  proof (cases "vals = []")
    case True
    with eq assms show ?thesis by simp
  next
    case False
    with eq assms obtain vs where vs: "those vals = Some vs"
      and s: "s = sum_list vs / real (length vs)"
      by (auto split: option.splits)
    have len: "0 < real (length vs)" using those_Some_length [OF vs] False by simp
    have "- 1 \<le> v \<and> v \<le> 1" if "v \<in> set vs" for v
    proof -
      have "Some v \<in> set vals" by (rule those_Some_mem [OF vs that])
      then obtain w1 w2 where "computeWindowSSIM w1 w2 0.01 0.03 255 = Some v"
        unfolding vals_def by auto
      then show ?thesis by (rule computeWindowSSIM_range) simp_all
    qed
    from sum_list_unit_range [OF this]
    have "- real (length vs) \<le> sum_list vs" "sum_list vs \<le> real (length vs)" by simp_all
    then show ?thesis unfolding s using len
      by (simp add: pos_le_divide_eq pos_divide_le_eq)
  qed
qed


lemma length_extractWindow: "length (extractWindow buffer width x y ws) = ws * ws"
proof -
  have "length (extractWindow buffer width x y ws) = ws * length [0..<ws]"
    unfolding extractWindow_def by (rule length_concat_fixed) simp
  then show ?thesis by simp
qed

lemma extractWindow_defined:
  assumes "\<And>wy wx. wy < ws \<Longrightarrow> wx < ws \<Longrightarrow>
             0 \<le> (y + int wy) * width + (x + int wx)
           \<and> (y + int wy) * width + (x + int wx) < int (length buffer)"
  shows "None \<notin> set (extractWindow buffer width x y ws)"
  using assms by (auto simp: extractWindow_def readByte_def)

lemma computeWindowSSIM_defined:
  assumes "None \<notin> set w1" "None \<notin> set w2" "length w1 = length w2"
  shows "computeWindowSSIM w1 w2 k1 k2 L \<noteq> None"
proof -
  have "map (\<lambda>i. if i < length w2 then w2 ! i else None) [0..<length w1] = w2"
    using assms(3) by (intro nth_equalityI) simp_all
  moreover have "those w1 \<noteq> None" "those w2 \<noteq> None"
    using assms by (simp_all add: those_None_iff)
  ultimately show ?thesis
    by (auto simp: computeWindowSSIM_def Let_def split: option.splits)
qed

lemma window_index_in_range:
  fixes W H :: int
  assumes i: "i < nat (W div 11)" and j: "j < nat (H div 11)" and wy: "wy < 11" and wx: "wx < 11"
  shows "0 \<le> (int j * 11 + int wy) * W + (int i * 11 + int wx)"
    and "(int j * 11 + int wy) * W + (int i * 11 + int wx) < W * H"
proof -
  have "int i + 1 \<le> W div 11" using i by simp
  then have "11 * (int i + 1) \<le> 11 * (W div 11)" by simp
  also have "\<dots> \<le> W" by linarith
  finally have x: "int i * 11 + int wx < W" using wx by simp
  have "int j + 1 \<le> H div 11" using j by simp
  then have "11 * (int j + 1) \<le> 11 * (H div 11)" by simp
  also have "\<dots> \<le> H" by linarith
  finally have y: "int j * 11 + int wy < H" using wy by simp
  have W: "0 < W" using x by (smt (verit) of_nat_0_le_iff mult_nonneg_nonneg)
  show "0 \<le> (int j * 11 + int wy) * W + (int i * 11 + int wx)" using W by simp
  have "int j * 11 + int wy + 1 \<le> H" using y by simp
  then have "(int j * 11 + int wy + 1) * W \<le> H * W" using W by (intro mult_right_mono) simp_all
  then show "(int j * 11 + int wy) * W + (int i * 11 + int wx) < W * H"
    using x by (simp add: algebra_simps)
qed

lemma computeSSIM_defined:
  assumes o: "width * height \<le> int (length original)"
    and p: "width * height \<le> int (length processed)"
  shows "computeSSIM original processed width height \<noteq> None"
proof -
  define vals where "vals = concat (map (\<lambda>j. map (\<lambda>i.
                      computeWindowSSIM
                        (extractWindow original width (int i * int 11) (int j * int 11) 11)
                        (extractWindow processed width (int i * int 11) (int j * int 11) 11)
                        0.01 0.03 255)
                      [0..<nat (width div int 11)])
                    [0..<nat (height div int 11)])"
  have eq: "computeSSIM original processed width height =
     (if vals = [] then Some 1
         else case those vals of
                None \<Rightarrow> None
              | Some vs \<Rightarrow> Some (sum_list vs / real (length vs)))"
    by (simp add: computeSSIM_def Let_def vals_def)
  have "v \<noteq> None" if "v \<in> set vals" for v
  proof -
    from that obtain i j where i: "i < nat (width div 11)" and j: "j < nat (height div 11)"
      and v: "v = computeWindowSSIM
                        (extractWindow original width (int i * 11) (int j * 11) 11)
                        (extractWindow processed width (int i * 11) (int j * 11) 11)
                        0.01 0.03 255"
      unfolding vals_def by auto
    have a: "None \<notin> set (extractWindow original width (int i * 11) (int j * 11) 11)"
      using window_index_in_range [OF i j] o by (intro extractWindow_defined) force
    have b: "None \<notin> set (extractWindow processed width (int i * 11) (int j * 11) 11)"
      using window_index_in_range [OF i j] p by (intro extractWindow_defined) force
    show ?thesis unfolding v
      by (rule computeWindowSSIM_defined [OF a b]) (simp add: length_extractWindow)
  qed
  then have "None \<notin> set vals" by blast
  then have "those vals \<noteq> None" by (simp add: those_None_iff)
  then show ?thesis unfolding eq by (auto split: option.splits)
qed


lemma sum_list_nat_bounded:
  fixes f :: "'a \<Rightarrow> nat"
  assumes "\<And>x. x \<in> set xs \<Longrightarrow> f x \<le> k"
  shows "(\<Sum>x\<leftarrow>xs. f x) \<le> length xs * k"
  using assms by (induction xs) (auto simp: add_mono)

lemma detectArtifacts_range:
  assumes w: "0 < reg_width region" and h: "0 < reg_height region"
  shows "0 \<le> detectArtifacts processed region width height
       \<and> detectArtifacts processed region width height \<le> 1"
proof -
  define hit where "hit = (\<lambda>y x c.
      let idx = (y * width + x) * 3;
          rightIdx = (y * width + x + 1) * 3;
          downIdx = ((y + 1) * width + x) * 3
      in if differsOver50 (readByte processed (idx + c)) (readByte processed (rightIdx + c))
            \<or> differsOver50 (readByte processed (idx + c)) (readByte processed (downIdx + c))
         then 1 else 0 :: nat)"
  define ys where "ys = [reg_y region..reg_y region + reg_height region - 2]"
  define xs where "xs = [reg_x region..reg_x region + reg_width region - 2]"
  define score where "score = (\<Sum>y\<leftarrow>ys. \<Sum>x\<leftarrow>xs. \<Sum>c\<leftarrow>[0..3 - 1]. hit y x c)"
  have val: "detectArtifacts processed region width height
      = real score / real_of_int (reg_width region * reg_height region * 3)"
    by (simp add: detectArtifacts_def Let_def score_def hit_def ys_def xs_def)
  have "hit y x c \<le> 1" for y x c by (simp add: hit_def Let_def)
  then have "(\<Sum>c\<leftarrow>[0..3 - 1]. hit y x c) \<le> length [0..(3::int) - 1] * 1" for y x
    by (rule sum_list_nat_bounded)
  then have c3: "(\<Sum>c\<leftarrow>[0..3 - 1]. hit y x c) \<le> 3" for y x by simp
  have row: "(\<Sum>x\<leftarrow>xs. \<Sum>c\<leftarrow>[0..3 - 1]. hit y x c) \<le> length xs * 3" for y
    by (rule sum_list_nat_bounded) (rule c3)
  have sc: "score \<le> length ys * (length xs * 3)"
    unfolding score_def by (rule sum_list_nat_bounded) (rule row)
  have lens: "length ys = nat (reg_height region - 1)" "length xs = nat (reg_width region - 1)"
    by (simp_all add: ys_def xs_def)
  from sc have "score \<le> nat (reg_height region - 1) * (nat (reg_width region - 1) * 3)"
    by (simp only: lens)
  then have "int score \<le> int (nat (reg_height region - 1) * (nat (reg_width region - 1) * 3))"
    by (rule of_nat_mono)
  also have "\<dots> = (reg_height region - 1) * ((reg_width region - 1) * 3)"
    using w h by simp
  also have "\<dots> \<le> reg_height region * (reg_width region * 3)"
    using w h by (intro mult_mono) simp_all
  finally have "int score \<le> reg_width region * reg_height region * 3" by (simp add: algebra_simps)
  then have le: "real score \<le> real_of_int (reg_width region * reg_height region * 3)"
    by (metis of_int_le_iff of_int_of_nat_eq)
  have pos: "0 < real_of_int (reg_width region * reg_height region * 3)"
    using w h by simp
  show ?thesis unfolding val using le pos by (simp only: divide_le_eq_1_pos) simp
qed

lemma jsRound_bounds:
  "0 \<le> v \<Longrightarrow> 0 \<le> jsRound (v * k) \<or> k < 0"
  "v \<le> 1 \<Longrightarrow> jsRound (v * 1000) \<le> 1000"
  "- 1 \<le> v \<Longrightarrow> - 1000 \<le> jsRound (v * 1000)"
  by (auto simp: jsRound_def le_floor_iff floor_le_iff zero_le_mult_iff not_less)


text \<open>
  The metric functions on arbitrary byte buffers: for a region of positive width and
  height, \<open>psnr \<ge> 0\<close> and \<open>0 \<le> artifactLevel \<le> 1\<close>, and the structural similarity,
  whenever it is a number, lies in \<open>[-1, 1]\<close>; it is a number at least when both
  buffers hold \<open>width * height\<close> bytes.
\<close>

lemma evaluateQuality_ranges:
  assumes w: "0 < reg_width region" and h: "0 < reg_height region"
  shows "0 \<le> qm_psnr (evaluateQuality original processed region width height)
    \<and> 0 \<le> qm_artifactLevel (evaluateQuality original processed region width height)
    \<and> qm_artifactLevel (evaluateQuality original processed region width height) \<le> 1
    \<and> (\<forall>s. qm_ssim (evaluateQuality original processed region width height) = Some s
           \<longrightarrow> - 1 \<le> s \<and> s \<le> 1)
    \<and> (width * height \<le> int (length original) \<and> width * height \<le> int (length processed)
           \<longrightarrow> qm_ssim (evaluateQuality original processed region width height) \<noteq> None)"
proof -
  let ?q = "evaluateQuality original processed region width height"
  have "0 \<le> jsRound (computePSNR original processed * 100)"
    using jsRound_bounds(1) [OF computePSNR_nonneg, of original processed 100] by simp
  then have psnr: "0 \<le> qm_psnr ?q" by (simp add: evaluateQuality_def Let_def)
  from detectArtifacts_range [OF w h, of processed width height]
  have "0 \<le> jsRound (detectArtifacts processed region width height * 1000)"
    "jsRound (detectArtifacts processed region width height * 1000) \<le> 1000"
    using jsRound_bounds(1) [of "detectArtifacts processed region width height" 1000]
      jsRound_bounds(2) [of "detectArtifacts processed region width height"] by simp_all
  then have art: "0 \<le> qm_artifactLevel ?q" "qm_artifactLevel ?q \<le> 1"
    by (simp_all add: evaluateQuality_def Let_def)
  have ssim: "- 1 \<le> s \<and> s \<le> 1" if "qm_ssim ?q = Some s" for s
  proof -
    from that obtain t where t: "computeSSIM original processed width height = Some t"
      and s: "s = real_of_int (jsRound (t * 1000)) / 1000"
      by (auto simp: evaluateQuality_def Let_def)
    from computeSSIM_range [OF t] have "- 1000 \<le> jsRound (t * 1000)" "jsRound (t * 1000) \<le> 1000"
      using jsRound_bounds(2) [of t] jsRound_bounds(3) [of t] by simp_all
    then show ?thesis unfolding s by simp
  qed
  have defined: "qm_ssim ?q \<noteq> None"
    if "width * height \<le> int (length original)" "width * height \<le> int (length processed)"
    using computeSSIM_defined [OF that] by (simp add: evaluateQuality_def Let_def)
  from psnr art ssim defined show ?thesis by blast
qed

lemma those_map_Some: "those (map (\<lambda>x. Some (f x)) xs) = Some (map f xs)"
  by (induction xs) simp_all

lemma concat_map_upt:
  "concat (map (\<lambda>i. map (\<lambda>j. f (i * n + j)) [0..<n]) [0..<m]) = map f [0..<m * n]"
proof (induction m)
  case 0
  then show ?case by simp
next
  case (Suc m)
  have "[0..<Suc m * n] = [0..<m * n] @ [m * n..<m * n + n]"
    using upt_add_eq_append [of 0 "m * n" n] by (simp add: add.commute)
  moreover have "[m * n..<m * n + n] = map (\<lambda>j. m * n + j) [0..<n]"
    using map_add_upt [of "m * n" n] by (simp add: add.commute)
  ultimately have "map f [0..<Suc m * n] = map f [0..<m * n] @ map (\<lambda>j. f (m * n + j)) [0..<n]"
    by (simp add: comp_def)
  then show ?case using Suc by simp
qed

lemma extractWindow_whole:
  assumes "length buffer = ws * ws"
  shows "extractWindow buffer (int ws) 0 0 ws = map (\<lambda>b. Some (byteVal b)) buffer"
proof -
  have "extractWindow buffer (int ws) 0 0 ws
      = concat (map (\<lambda>wy. map (\<lambda>wx. readByte buffer (int (wy * ws + wx))) [0..<ws]) [0..<ws])"
    by (simp add: extractWindow_def)
  also have "\<dots> = map (\<lambda>k. readByte buffer (int k)) [0..<ws * ws]"
    by (rule concat_map_upt)
  also have "\<dots> = map (\<lambda>k. readByte buffer (int k)) [0..<length buffer]"
    by (simp only: assms)
  also have "\<dots> = map (\<lambda>b. Some (byteVal b)) buffer"
    by (intro nth_equalityI) (simp_all add: readByte_def)
  finally show ?thesis .
qed

lemma computeSSIM_single_window:
  assumes o: "length original = 121" and p: "length processed = 121"
  shows "computeSSIM original processed 11 11
     = Some (windowSSIM (map byteVal original) (map byteVal processed) 0.01 0.03 255)"
proof -
  have wo: "extractWindow original 11 0 0 11 = map (\<lambda>b. Some (byteVal b)) original"
    using extractWindow_whole [of original 11] o by simp
  have wp: "extractWindow processed 11 0 0 11 = map (\<lambda>b. Some (byteVal b)) processed"
    using extractWindow_whole [of processed 11] p by simp
  have second: "map (\<lambda>i. if i < length processed
                         then map (\<lambda>b. Some (byteVal b)) processed ! i else None)
                    [0..<length original] = map (\<lambda>b. Some (byteVal b)) processed"
    using o p by (intro nth_equalityI) simp_all
  have "computeWindowSSIM (extractWindow original 11 0 0 11) (extractWindow processed 11 0 0 11)
          0.01 0.03 255
      = Some (windowSSIM (map byteVal original) (map byteVal processed) 0.01 0.03 255)"
    unfolding wo wp by (simp add: computeWindowSSIM_def second those_map_Some)
  then show ?thesis by (simp add: computeSSIM_def)
qed


lemma windowSSIM_inverted:
  "windowSSIM (map byteVal (replicate 60 0 @ replicate 61 255))
          (map byteVal (replicate 60 255 @ replicate 61 0)) 0.01 0.03 255
        = - 1783221433723357 / 1789897486306643"
proof -
  have a: "map byteVal (replicate 60 0 @ replicate 61 255) = replicate 60 0 @ replicate 61 255"
    and b: "map byteVal (replicate 60 255 @ replicate 61 0) = replicate 60 255 @ replicate 61 0"
    by (simp_all add: byteVal_def)
  have z: "zip (replicate 60 (0::real) @ replicate 61 255) (replicate 60 (255::real) @ replicate 61 0)
      = replicate 60 (0, 255) @ replicate 61 (255, 0)"
    by (simp add: zip_replicate)
  show ?thesis
    unfolding a b windowSSIM_def Let_def z
    by (simp add: sum_list_replicate)
qed


text \<open>
  As a function of two byte buffers the similarity can be negative: a single 11 by 11
  window of 60 zero bytes followed by 61 bytes 255, against the same window with the
  two values exchanged.
\<close>

lemma computeSSIM_inverted:
  "computeSSIM (replicate 60 0 @ replicate 61 255) (replicate 60 255 @ replicate 61 0) 11 11
     = Some (- 1783221433723357 / 1789897486306643)"
proof -
  have "length (replicate 60 (0::byte) @ replicate 61 255) = 121"
    "length (replicate 60 (255::byte) @ replicate 61 0) = 121" by simp_all
  from computeSSIM_single_window [OF this] show ?thesis
    by (simp only: windowSSIM_inverted)
qed

subsection \<open>Interpolation without sources\<close>



lemma readByte_replicate:
  "0 \<le> k \<Longrightarrow> k < int n \<Longrightarrow> readByte (replicate n b) k = Some (byteVal b)"
  by (simp add: readByte_def)

lemma clampByte_gray: "clampByte (Some (byteVal 128)) = 128"
  by (simp add: clampByte_def toUint8_def byteVal_def)

lemma funpow_fixed: "f x = x \<Longrightarrow> (f ^^ n) x = x"
  by (induction n) simp_all

lemma interior_neighbours_in_range:
  fixes w h x y c :: int
  assumes "1 \<le> x" "x < w - 1" "1 \<le> y" "y < h - 1" "0 \<le> c" "c < 3"
  shows "0 \<le> ((y - 1) * w + x) * 3 + c" "((y - 1) * w + x) * 3 + c < w * h * 3"
    and "0 \<le> ((y + 1) * w + x) * 3 + c" "((y + 1) * w + x) * 3 + c < w * h * 3"
    and "0 \<le> (y * w + (x - 1)) * 3 + c" "(y * w + (x - 1)) * 3 + c < w * h * 3"
    and "0 \<le> (y * w + (x + 1)) * 3 + c" "(y * w + (x + 1)) * 3 + c < w * h * 3"
proof -
  define r where "r = y * w"
  define t where "t = w * h"
  have w: "0 < w" using assms by simp
  have "1 * w \<le> y * w" using assms w by (intro mult_right_mono) simp_all
  then have lo: "w \<le> r" by (simp add: r_def)
  have "(y + 2) * w \<le> h * w" using assms w by (intro mult_right_mono) simp_all
  then have hi: "r + 2 * w \<le> t" by (simp add: r_def t_def algebra_simps)
  have e1: "(y - 1) * w = r - w" and e2: "(y + 1) * w = r + w"
    by (simp_all add: r_def algebra_simps)
  have x: "1 \<le> x" "x < w - 1" and c: "0 \<le> c" "c < 3" using assms by simp_all
  show "0 \<le> ((y - 1) * w + x) * 3 + c" unfolding e1 using lo x c by simp
  show "0 \<le> ((y + 1) * w + x) * 3 + c" unfolding e2 using lo w x c by simp
  show "0 \<le> (y * w + (x - 1)) * 3 + c" unfolding r_def [symmetric] using lo w x c by simp
  show "0 \<le> (y * w + (x + 1)) * 3 + c" unfolding r_def [symmetric] using lo w x c by simp
  show "((y - 1) * w + x) * 3 + c < w * h * 3"
    unfolding e1 t_def [symmetric] using hi w x c by simp
  show "((y + 1) * w + x) * 3 + c < w * h * 3"
    unfolding e2 t_def [symmetric] using hi w x c by simp
  show "(y * w + (x - 1)) * 3 + c < w * h * 3"
    unfolding r_def [symmetric] t_def [symmetric] using hi w x c by simp
  show "(y * w + (x + 1)) * 3 + c < w * h * 3"
    unfolding r_def [symmetric] t_def [symmetric] using hi w x c by simp
qed

lemma applyAnisotropicDiffusion_gray:
  "applyAnisotropicDiffusion (replicate (nat (w * h * 3)) 128) w h kappa gamma
     = replicate (nat (w * h * 3)) 128"
proof (intro nth_equalityI)
  show "length (applyAnisotropicDiffusion (replicate (nat (w * h * 3)) 128) w h kappa gamma)
      = length (replicate (nat (w * h * 3)) (128 :: byte))"
    by (simp add: applyAnisotropicDiffusion_def)
next
  fix i
  assume "i < length (applyAnisotropicDiffusion (replicate (nat (w * h * 3)) 128) w h kappa gamma)"
  then have i: "i < nat (w * h * 3)" by (simp add: applyAnisotropicDiffusion_def)
  define x where "x = (int i div 3) mod w"
  define y where "y = (int i div 3) div w"
  define c where "c = int i mod 3"
  have c: "0 \<le> c" "c < 3" by (simp_all add: c_def)
  let ?buf = "replicate (nat (w * h * 3)) (128 :: byte)"
  have n: "int (nat (w * h * 3)) = w * h * 3" using i by simp
  have g: "byteVal 128 \<noteq> 0" by (simp add: byteVal_def)
  have "applyAnisotropicDiffusion ?buf w h kappa gamma ! i = 128"
  proof (cases "0 < w \<and> 1 \<le> y \<and> y < h - 1 \<and> 1 \<le> x \<and> x < w - 1")
    case True
    then have xy: "1 \<le> x" "x < w - 1" "1 \<le> y" "y < h - 1" by simp_all
    have r1: "readByte ?buf (((y - 1) * w + x) * 3 + c) = Some (byteVal 128)"
      and r2: "readByte ?buf (((y + 1) * w + x) * 3 + c) = Some (byteVal 128)"
      and r3: "readByte ?buf ((y * w + (x - 1)) * 3 + c) = Some (byteVal 128)"
      and r4: "readByte ?buf ((y * w + (x + 1)) * 3 + c) = Some (byteVal 128)"
      using interior_neighbours_in_range [OF xy c]
      by (simp_all only: readByte_replicate n)
    have "those [ readByte ?buf (((y - 1) * w + x) * 3 + c),
                  readByte ?buf (((y + 1) * w + x) * 3 + c),
                  readByte ?buf ((y * w + (x - 1)) * 3 + c),
                  readByte ?buf ((y * w + (x + 1)) * 3 + c) ]
            = Some [byteVal 128, byteVal 128, byteVal 128, byteVal 128]"
      unfolding r1 r2 r3 r4 by simp
    then have "applyAnisotropicDiffusion ?buf w h kappa gamma ! i = clampByte (Some (byteVal 128))"
      using i True g unfolding applyAnisotropicDiffusion_def Let_def x_def y_def c_def
      by (simp only: nth_map length_upt nth_upt length_replicate nth_replicate minus_nat.diff_0
          add_0 option.map list.map sum_list.Cons sum_list.Nil diff_self mult_zero_right
          mult_zero_left add_0_right if_True option.inject if_False simp_thms)
    then show ?thesis by (simp only: clampByte_gray)
  next
    case False
    then have nw: "(0 < w \<and> 1 \<le> int i div 3 div w \<and> int i div 3 div w < h - 1
        \<and> 1 \<le> int i div 3 mod w \<and> int i div 3 mod w < w - 1) = False"
      by (simp add: x_def y_def)
    show ?thesis
      using i unfolding applyAnisotropicDiffusion_def Let_def
      by (simp only: nth_map length_upt nth_upt length_replicate nth_replicate minus_nat.diff_0
          add_0 nw if_False if_True simp_thms clampByte_gray)
  qed
  then show "applyAnisotropicDiffusion ?buf w h kappa gamma ! i = ?buf ! i"
    using i by simp
qed

text \<open>
  C6, amended. For every target region and every interpolation method,
  interpolateWithEdgePreservation called with an empty list of sources fails with
  "No source regions provided for interpolation". The neutral gray fill (a buffer of
  \<open>width * height * 3\<close> bytes 128) is what the four method functions return when
  they are called directly with an empty list, for a target region of positive
  width and height.
\<close>

theorem interpolation_empty_sources:
  "interpolateWithEdgePreservation [] targetRegion method = Inl NoSourceRegions
   \<and> (0 < reg_width targetRegion \<and> 0 < reg_height targetRegion \<longrightarrow>
        bicubicInterpolation [] targetRegion
          = Inr (replicate (nat (reg_width targetRegion * reg_height targetRegion * 3)) 128)
      \<and> lanczosInterpolation [] targetRegion
          = Inr (replicate (nat (reg_width targetRegion * reg_height targetRegion * 3)) 128)
      \<and> edgeDirectedInterpolation [] targetRegion
          = Inr (replicate (nat (reg_width targetRegion * reg_height targetRegion * 3)) 128)
      \<and> anisotropicDiffusionInterpolation [] targetRegion
          = Inr (replicate (nat (reg_width targetRegion * reg_height targetRegion * 3)) 128))"
proof -
  let ?w = "reg_width targetRegion" and ?h = "reg_height targetRegion"
  have d: "interpolateWithEdgePreservation [] targetRegion method = Inl NoSourceRegions"
    by (simp add: interpolateWithEdgePreservation_def)
  have m: "bicubicInterpolation [] targetRegion = Inr (replicate (nat (?w * ?h * 3)) 128)
      \<and> lanczosInterpolation [] targetRegion = Inr (replicate (nat (?w * ?h * 3)) 128)
      \<and> edgeDirectedInterpolation [] targetRegion = Inr (replicate (nat (?w * ?h * 3)) 128)
      \<and> anisotropicDiffusionInterpolation [] targetRegion
          = Inr (replicate (nat (?w * ?h * 3)) 128)"
    if pos: "0 < ?w" "0 < ?h"
  proof -
    have "0 < ?w * ?h" "0 < ?h * ?w" using pos by (simp_all only: mult_pos_pos)
    then have nn: "\<not> ?w * ?h < 0" "\<not> ?h * ?w < 0" by linarith+
    have b: "bicubicInterpolation [] targetRegion = Inr (replicate (nat (?w * ?h * 3)) 128)"
      using nn by (simp add: bicubicInterpolation_def Let_def)
    have l: "lanczosInterpolation [] targetRegion = Inr (replicate (nat (?w * ?h * 3)) 128)"
      using nn by (simp add: lanczosInterpolation_def Let_def)
    have e: "edgeDirectedInterpolation [] targetRegion = Inr (replicate (nat (?w * ?h * 3)) 128)"
      using nn by (simp add: edgeDirectedInterpolation_def Let_def)
    have "((\<lambda>r. applyAnisotropicDiffusion r ?w ?h 30 0.1) ^^ 10) (replicate (nat (?w * ?h * 3)) 128)
        = replicate (nat (?w * ?h * 3)) 128"
      by (rule funpow_fixed) (rule applyAnisotropicDiffusion_gray)
    then have a: "anisotropicDiffusionInterpolation [] targetRegion
        = Inr (replicate (nat (?w * ?h * 3)) 128)"
      unfolding anisotropicDiffusionInterpolation_def b by (simp add: Let_def)
    from b l e a show ?thesis by blast
  qed
  from d m show ?thesis by blast
qed

theorem interpolation_empty_sources_witness:
  "interpolateWithEdgePreservation [] \<lparr> reg_x = 0, reg_y = 0, reg_width = 2, reg_height = 1 \<rparr>
       Anisotropic = Inl NoSourceRegions
   \<and> anisotropicDiffusionInterpolation [] \<lparr> reg_x = 0, reg_y = 0, reg_width = 2, reg_height = 1 \<rparr>
       = Inr [128, 128, 128, 128, 128, 128]
   \<and> bicubicInterpolation [] \<lparr> reg_x = 0, reg_y = 0, reg_width = 2, reg_height = 1 \<rparr>
       = Inr [128, 128, 128, 128, 128, 128]"
  using interpolation_empty_sources
    [of "\<lparr> reg_x = 0, reg_y = 0, reg_width = 2, reg_height = 1 \<rparr>" Anisotropic]
  by (simp add: numeral_eq_Suc)

text \<open>
  C6, as stated, fails: with no source buffer the dispatcher returns the error, not
  the gray buffer.
\<close>

theorem interpolateWithEdgePreservation_empty_counterexample:
  "interpolateWithEdgePreservation [] \<lparr> reg_x = 0, reg_y = 0, reg_width = 2, reg_height = 1 \<rparr>
       Bicubic = Inl NoSourceRegions
   \<and> interpolateWithEdgePreservation [] \<lparr> reg_x = 0, reg_y = 0, reg_width = 2, reg_height = 1 \<rparr>
       Bicubic \<noteq> Inr [128, 128, 128, 128, 128, 128]"
  by (simp add: interpolateWithEdgePreservation_def)

subsection \<open>Compositing\<close>

lemma blendWithOriginal_mask_irrelevant:
  "blendWithOriginal rawToBuffer img content region featherMask
     = blendWithOriginal rawToBuffer img content region featherMask'"
  by (simp add: blendWithOriginal_def)

text \<open>
  C2, evaluated on the code. Every method ends in a call of blendWithOriginal with
  the content and the mask it has computed, and the mask never reaches the image
  library: blendWithOriginal returns the same composite request for every mask, so the
  fixed radius \<open>options.featherRadius\<close> has no influence on the result of the
  patch-based method. With a library that renders a raw buffer to the same bytes, the
  request for the 1 by 1 region at (0,0), content \<open>[9, 9, 9]\<close> and a mask that is 0
  everywhere consists of the content bytes alone, to be placed at (0,0) with blend
  mode \<open>over\<close>: no output pixel is a mask-weighted blend of content and original.
\<close>

theorem blendWithOriginal_discards_featherMask:
  "blendWithOriginal rawToBuffer img content region featherMask
     = blendWithOriginal rawToBuffer img content region []
   \<and> patchBasedInpainting rawToBuffer blendedContent img imageSize region
        (options \<lparr> opt_featherRadius := radius \<rparr>)
     = patchBasedInpainting rawToBuffer blendedContent img imageSize region options
   \<and> blendWithOriginal (\<lambda>pixels w h c. Inr pixels) img [9, 9, 9]
        \<lparr> reg_x = 0, reg_y = 0, reg_width = 1, reg_height = 1 \<rparr> [0, 0]
     = Inr (img \<lparr> sharp_composite :=
              [\<lparr> ci_input = [9, 9, 9], ci_left = 0, ci_top = 0, ci_blend = Over \<rparr>] \<rparr>)"
proof (intro conjI)
  show "blendWithOriginal rawToBuffer img content region featherMask
          = blendWithOriginal rawToBuffer img content region []"
    by (rule blendWithOriginal_mask_irrelevant)
  show "patchBasedInpainting rawToBuffer blendedContent img imageSize region
          (options \<lparr> opt_featherRadius := radius \<rparr>)
        = patchBasedInpainting rawToBuffer blendedContent img imageSize region options"
  proof (cases "interpolateWithEdgePreservation [blendedContent] region
                  (if opt_edgePreservation options then EdgeDirected else Bicubic)")
    case (Inl e)
    then show ?thesis by (simp add: patchBasedInpainting_def)
  next
    case (Inr interpolatedContent)
    then show ?thesis
      by (simp add: patchBasedInpainting_def Let_def
            blendWithOriginal_mask_irrelevant
              [of rawToBuffer img interpolatedContent region
                  "createFeatherMask region imageSize radius"
                  "createFeatherMask region imageSize (opt_featherRadius options)"])
  qed
  show "blendWithOriginal (\<lambda>pixels w h c. Inr pixels) img [9, 9, 9]
          \<lparr> reg_x = 0, reg_y = 0, reg_width = 1, reg_height = 1 \<rparr> [0, 0]
        = Inr (img \<lparr> sharp_composite :=
                 [\<lparr> ci_input = [9, 9, 9], ci_left = 0, ci_top = 0, ci_blend = Over \<rparr>] \<rparr>)"
    by (simp add: blendWithOriginal_def)
qed

end
